theory Spec2Isabelle
  imports Main "HOL-Library.Product_Lexorder" "HOL-Library.List_Lexorder"
begin

section \<open>JavaScript values of the query service\<close>

text \<open>
  The service is the Express application whose source follows the deployment script.
  Strings are lists of characters; a character stands for one code unit in the range
  0..255.  Numbers are the integer-valued results of \<^verbatim>\<open>parseInt\<close> and of
  integer arithmetic on them: \<open>NaN\<close>, or an integer.  The model is exact for
  magnitudes up to \<open>2 ^ 53\<close>; beyond that JavaScript rounds to a double, which is not
  modelled.
\<close>

datatype jsnum = NaN | Num int

text \<open>
  A value of \<^verbatim>\<open>req.query\<close> as the extended query parser produces it: a string, an
  array (a repeated key) or a plain object (a bracketed key).
\<close>

datatype qval = QStr string | QArr "qval list" | QObj

datatype jsval = JNum jsnum | JVal qval

datatype sqlval = SNull | SInt int | SText string

type_synonym row = "(string \<times> sqlval) list"

abbreviation dq :: char where "dq \<equiv> CHR 0x22"
abbreviation sq :: char where "sq \<equiv> CHR 0x27"
abbreviation nl :: char where "nl \<equiv> CHR 0x0A"
abbreviation nul :: char where "nul \<equiv> CHR 0x00"

fun join_with :: "string \<Rightarrow> string list \<Rightarrow> string" where
  "join_with sep [] = []"
| "join_with sep [x] = x"
| "join_with sep (x # y # ys) = x @ sep @ join_with sep (y # ys)"

text \<open>\<^verbatim>\<open>String(v)\<close>: an array joins its elements with commas, a plain object prints
  as \<^verbatim>\<open>[object Object]\<close>.\<close>

fun to_js_string :: "qval \<Rightarrow> string" where
  "to_js_string (QStr s) = s"
| "to_js_string (QArr vs) = join_with '','' (map to_js_string vs)"
| "to_js_string QObj = ''[object Object]''"

fun truthy :: "qval \<Rightarrow> bool" where
  "truthy (QStr s) = (s \<noteq> [])"
| "truthy (QArr vs) = True"
| "truthy QObj = True"

text \<open>\<^verbatim>\<open>v || 'dflt'\<close> for a query value that may be undefined.\<close>

definition or_default :: "qval option \<Rightarrow> string \<Rightarrow> qval" where
  "or_default v dflt =
     (case v of None \<Rightarrow> QStr dflt | Some x \<Rightarrow> if truthy x then x else QStr dflt)"

text \<open>The white space and line terminators of JavaScript in the range of the model.\<close>

definition is_space :: "char \<Rightarrow> bool" where
  "is_space c = (c \<in> set [CHR 0x09, CHR 0x0A, CHR 0x0B, CHR 0x0C, CHR 0x0D, CHR 0x20, CHR 0xA0])"

definition is_digit :: "char \<Rightarrow> bool" where
  "is_digit c = (c \<in> set ''0123456789'')"

definition digit_val :: "char \<Rightarrow> int" where
  "digit_val c = int (of_char c) - 48"

definition digits_val :: "string \<Rightarrow> int" where
  "digits_val ds = foldl (\<lambda>a c. 10 * a + digit_val c) 0 ds"

text \<open>\<^verbatim>\<open>parseInt(s, 10)\<close>: skip leading white space, read an optional sign, then the
  longest run of decimal digits; no digit gives \<open>NaN\<close>.\<close>

definition parse_int10 :: "string \<Rightarrow> jsnum" where
  "parse_int10 s =
     (let s1 = dropWhile is_space s;
          neg = (case s1 of c # _ \<Rightarrow> c = CHR ''-'' | [] \<Rightarrow> False);
          s2 = (case s1 of c # cs \<Rightarrow> if c = CHR ''-'' \<or> c = CHR ''+'' then cs else s1 | [] \<Rightarrow> []);
          ds = takeWhile is_digit s2
      in if ds = [] then NaN
         else Num (if neg then - digits_val ds else digits_val ds))"

definition parseInt :: "qval \<Rightarrow> jsnum" where
  "parseInt v = parse_int10 (to_js_string v)"

fun dec_digits :: "nat \<Rightarrow> string" where
  "dec_digits n =
     (if n < 10 then [''0123456789'' ! n] else dec_digits (n div 10) @ [''0123456789'' ! (n mod 10)])"

declare dec_digits.simps [simp del]

text \<open>\<^verbatim>\<open>String(n)\<close> for a number interpolated into a template.\<close>

fun num_to_string :: "jsnum \<Rightarrow> string" where
  "num_to_string NaN = ''NaN''"
| "num_to_string (Num n) = (if n < 0 then CHR ''-'' # dec_digits (nat (- n)) else dec_digits (nat n))"

section \<open>Parameter normalisers\<close>

fun parseLimit :: "qval \<Rightarrow> int \<Rightarrow> int \<Rightarrow> int" where
  "parseLimit raw fallback mx =
     (case parseInt raw of
        NaN \<Rightarrow> fallback
      | Num parsed \<Rightarrow> if parsed \<le> 0 then fallback else min parsed mx)"

fun parseHours :: "qval \<Rightarrow> int \<Rightarrow> int" where
  "parseHours raw fallback =
     (case parseInt raw of
        NaN \<Rightarrow> fallback
      | Num parsed \<Rightarrow> if parsed \<le> 0 then fallback else parsed)"

definition buildTimestampOrderClause :: string where
  "buildTimestampOrderClause =
     ''COALESCE(timestamp, strftime('' @ [sq] @ ''%s'' @ [sq] @ '', created_at))''"

text \<open>\<^verbatim>\<open>name.replace(/"/g, '""')\<close>\<close>

definition escape_ident :: "string \<Rightarrow> string" where
  "escape_ident name = concat (map (\<lambda>c. if c = dq then [dq, dq] else [c]) name)"


text \<open>\<^verbatim>\<open>s.trim()\<close> and \<^verbatim>\<open>s.split(',')\<close>\<close>

definition trim :: "string \<Rightarrow> string" where
  "trim s = rev (dropWhile is_space (rev (dropWhile is_space s)))"

fun split_comma :: "string \<Rightarrow> string list" where
  "split_comma [] = [[]]"
| "split_comma (c # cs) =
     (if c = CHR '','' then [] # split_comma cs
      else (case split_comma cs of x # xs \<Rightarrow> (c # x) # xs | [] \<Rightarrow> [[c]]))"

section \<open>Environment, requests and responses\<close>

text \<open>
  What a handler reads from outside: the environment variable \<^verbatim>\<open>DB_PATH\<close>,
  \<^verbatim>\<open>path.resolve(process.cwd(), p)\<close>, the compiled-in default path,
  \<^verbatim>\<open>fs.existsSync\<close>, \<^verbatim>\<open>Date.now()\<close> in milliseconds, and
  \<^verbatim>\<open>db.all\<close> of the database opened at a path, which gives the engine's error
  message or the rows.
\<close>

record env =
  DB_PATH :: "string option"
  path_resolve :: "string \<Rightarrow> string"
  DEFAULT_DB_PATH :: string
  existsSync :: "string \<Rightarrow> bool"
  date_now :: int
  db_all :: "string \<Rightarrow> string \<Rightarrow> jsval list \<Rightarrow> string + row list"

record request =
  params_name :: string
  query :: "string \<Rightarrow> qval option"

datatype body =
    ErrorBody string
  | ErrorPathBody string string
  | TablesBody string "row list"
  | RowsBody "row list"
  | TotalMessagesBody sqlval
  | UniqueUsersBody sqlval
  | UniqueUsers24hBody sqlval
  | TopUsersBody int int "row list"
  | MessagesBody "row list" int
  | SearchBody "string list" int "row list"

datatype response = Response nat body

fun status :: "response \<Rightarrow> nat" where
  "status (Response c b) = c"

text \<open>
  The accessor \<^verbatim>\<open>all(dbPath, sql, params)\<close>: it rejects when the file does not exist,
  else it opens the database, runs the statement and closes again.  A rejection is
  \<open>Inl\<close> with the message of the error.
\<close>

definition all_rows :: "env \<Rightarrow> string \<Rightarrow> string \<Rightarrow> jsval list \<Rightarrow> string + row list" where
  "all_rows e dbPath sql params =
     (if \<not> existsSync e dbPath then Inl (''DB file not found: '' @ dbPath)
      else db_all e dbPath sql params)"

definition resolveDbPath :: "env \<Rightarrow> string" where
  "resolveDbPath e =
     (case DB_PATH e of
        Some envPath \<Rightarrow> if envPath \<noteq> [] then path_resolve e envPath else DEFAULT_DB_PATH e
      | None \<Rightarrow> DEFAULT_DB_PATH e)"

text \<open>\<^verbatim>\<open>rows?.[0]?.count || 0\<close>\<close>

fun sql_truthy :: "sqlval \<Rightarrow> bool" where
  "sql_truthy SNull = False"
| "sql_truthy (SInt n) = (n \<noteq> 0)"
| "sql_truthy (SText s) = (s \<noteq> [])"

definition first_count :: "row list \<Rightarrow> sqlval" where
  "first_count rows =
     (case rows of
        [] \<Rightarrow> SInt 0
      | r # _ \<Rightarrow> (case map_of r ''count'' of
                   None \<Rightarrow> SInt 0
                 | Some v \<Rightarrow> if sql_truthy v then v else SInt 0))"

text \<open>A multi-line template literal of the handlers: every line is indented by twelve
  blanks and the closing back-quote by eight.\<close>

definition template :: "string list \<Rightarrow> string" where
  "template ls = concat (map (\<lambda>l. nl # ''            '' @ l) ls) @ nl # ''        ''"

section \<open>Endpoint handlers\<close>

definition tables_sql :: string where
  "tables_sql = ''SELECT name, type FROM sqlite_master WHERE type IN ('' @ [sq] @ ''table'' @ [sq]
     @ '','' @ [sq] @ ''view'' @ [sq] @ '') AND name NOT LIKE '' @ [sq] @ ''sqlite_%'' @ [sq]
     @ '' ORDER BY name''"

definition tables_handler :: "env \<Rightarrow> request \<Rightarrow> response" where
  "tables_handler e req =
     (let dbPath = resolveDbPath e in
      if \<not> existsSync e dbPath then Response 404 (ErrorPathBody ''db not found'' dbPath)
      else case all_rows e dbPath tables_sql [] of
             Inl errmsg \<Rightarrow> Response 500 (ErrorBody errmsg)
           | Inr rows \<Rightarrow> Response 200 (TablesBody dbPath rows))"

definition table_dump_sql :: "string \<Rightarrow> jsnum \<Rightarrow> jsnum \<Rightarrow> string" where
  "table_dump_sql name lim off =
     ''SELECT * FROM '' @ [dq] @ escape_ident name @ [dq] @ '' LIMIT '' @ num_to_string lim
       @ '' OFFSET '' @ num_to_string off"

definition table_dump_handler :: "env \<Rightarrow> request \<Rightarrow> response" where
  "table_dump_handler e req =
     (let dbPath = resolveDbPath e;
          name = params_name req;
          lim = parseInt (or_default (query req ''limit'') ''100'');
          off = parseInt (or_default (query req ''offset'') ''0'')
      in if \<not> existsSync e dbPath then Response 404 (ErrorPathBody ''db not found'' dbPath)
         else case all_rows e dbPath (table_dump_sql name lim off) [] of
                Inl errmsg \<Rightarrow> Response 500 (ErrorBody errmsg)
              | Inr rows \<Rightarrow> Response 200 (RowsBody rows))"

definition history_count_sql :: string where
  "history_count_sql = ''SELECT COUNT(*) AS count FROM danmaku_messages''"

definition history_count_handler :: "env \<Rightarrow> request \<Rightarrow> response" where
  "history_count_handler e req =
     (let dbPath = resolveDbPath e in
      case all_rows e dbPath history_count_sql [] of
        Inl errmsg \<Rightarrow> Response 500 (ErrorBody errmsg)
      | Inr rows \<Rightarrow> Response 200 (TotalMessagesBody (first_count rows)))"

definition unique_users_sql :: string where
  "unique_users_sql = ''SELECT COUNT(DISTINCT open_id) AS count FROM danmaku_messages''"

definition unique_users_handler :: "env \<Rightarrow> request \<Rightarrow> response" where
  "unique_users_handler e req =
     (let dbPath = resolveDbPath e in
      case all_rows e dbPath unique_users_sql [] of
        Inl errmsg \<Rightarrow> Response 500 (ErrorBody errmsg)
      | Inr rows \<Rightarrow> Response 200 (UniqueUsersBody (first_count rows)))"

text \<open>\<^verbatim>\<open>Math.floor(Date.now() / 1000) - hours * 3600\<close>\<close>

definition cutoff_of :: "env \<Rightarrow> int \<Rightarrow> int" where
  "cutoff_of e hours = date_now e div 1000 - hours * 3600"

definition unique_users_24h_sql :: string where
  "unique_users_24h_sql =
     ''SELECT COUNT(DISTINCT open_id) AS count FROM danmaku_messages WHERE ''
       @ buildTimestampOrderClause @ '' >= ?''"

definition unique_users_24h_handler :: "env \<Rightarrow> request \<Rightarrow> response" where
  "unique_users_24h_handler e req =
     (let dbPath = resolveDbPath e;
          hours = 24;
          cutoff = cutoff_of e hours
      in case all_rows e dbPath unique_users_24h_sql [JNum (Num cutoff)] of
           Inl errmsg \<Rightarrow> Response 500 (ErrorBody errmsg)
         | Inr rows \<Rightarrow> Response 200 (UniqueUsers24hBody (first_count rows)))"

definition top_users_sql :: string where
  "top_users_sql = template
     [''SELECT uname, open_id, COUNT(*) AS messageCount'',
      ''FROM danmaku_messages'',
      ''WHERE '' @ buildTimestampOrderClause @ '' >= ?'',
      ''GROUP BY open_id, uname'',
      ''ORDER BY messageCount DESC'',
      ''LIMIT ?'']"

definition top_users_limit :: "request \<Rightarrow> int" where
  "top_users_limit req = parseLimit (or_default (query req ''limit'') ''10'') 10 100"

definition top_users_hours :: "request \<Rightarrow> int" where
  "top_users_hours req = parseHours (or_default (query req ''hours'') ''24'') 24"

definition top_users_params :: "env \<Rightarrow> request \<Rightarrow> jsval list" where
  "top_users_params e req =
     [JNum (Num (cutoff_of e (top_users_hours req))), JNum (Num (top_users_limit req))]"

definition top_users_handler :: "env \<Rightarrow> request \<Rightarrow> response" where
  "top_users_handler e req =
     (let dbPath = resolveDbPath e;
          limit = top_users_limit req;
          hours = top_users_hours req
      in case all_rows e dbPath top_users_sql (top_users_params e req) of
           Inl errmsg \<Rightarrow> Response 500 (ErrorBody errmsg)
         | Inr rows \<Rightarrow> Response 200 (TopUsersBody hours limit rows))"


text \<open>\<^verbatim>\<open>!v\<close> for a query value that may be undefined.\<close>

definition falsy :: "qval option \<Rightarrow> bool" where
  "falsy v = (case v of None \<Rightarrow> True | Some x \<Rightarrow> \<not> truthy x)"

definition recent_limit :: "request \<Rightarrow> int" where
  "recent_limit req = parseLimit (or_default (query req ''limit'') ''50'') 50 200"

definition recent_clauses :: "request \<Rightarrow> string list" where
  "recent_clauses req = (if falsy (query req ''roomId'') then [] else [''room_id = ?''])"

definition recent_sql :: "request \<Rightarrow> string" where
  "recent_sql req =
     (let clauses = recent_clauses req;
          where = (if clauses \<noteq> [] then ''WHERE '' @ join_with '' AND '' clauses else [])
      in template
           [''SELECT *'',
            ''FROM danmaku_messages'',
            where,
            ''ORDER BY '' @ buildTimestampOrderClause @ '' DESC'',
            ''LIMIT ?''])"

definition recent_params :: "request \<Rightarrow> jsval list" where
  "recent_params req =
     (case query req ''roomId'' of
        Some roomId \<Rightarrow> if truthy roomId then [JVal roomId] else []
      | None \<Rightarrow> [])
     @ [JNum (Num (recent_limit req))]"

definition recent_handler :: "env \<Rightarrow> request \<Rightarrow> response" where
  "recent_handler e req =
     (let dbPath = resolveDbPath e;
          limit = recent_limit req
      in case all_rows e dbPath (recent_sql req) (recent_params req) of
           Inl errmsg \<Rightarrow> Response 500 (ErrorBody errmsg)
         | Inr rows \<Rightarrow> Response 200 (MessagesBody rows limit))"

definition by_user_limit :: "request \<Rightarrow> int" where
  "by_user_limit req = parseLimit (or_default (query req ''limit'') ''100'') 100 500"

definition by_user_where :: "request \<Rightarrow> string" where
  "by_user_where req =
     (if \<not> falsy (query req ''openId'') then ''open_id = ?'' else ''uname LIKE ? COLLATE NOCASE'')"

definition by_user_sql :: "request \<Rightarrow> string" where
  "by_user_sql req = template
     [''SELECT *'',
      ''FROM danmaku_messages'',
      ''WHERE '' @ by_user_where req,
      ''ORDER BY '' @ buildTimestampOrderClause @ '' DESC'',
      ''LIMIT ?'']"

text \<open>The template \<^verbatim>\<open>`%${v}%`\<close>; an undefined value prints as \<^verbatim>\<open>undefined\<close>.\<close>

definition like_pattern :: "qval option \<Rightarrow> string" where
  "like_pattern v =
     ''%'' @ (case v of None \<Rightarrow> ''undefined'' | Some x \<Rightarrow> to_js_string x) @ ''%''"

definition by_user_params :: "request \<Rightarrow> jsval list" where
  "by_user_params req =
     (case query req ''openId'' of
        Some openId \<Rightarrow>
          if truthy openId then [JVal openId]
          else [JVal (QStr (like_pattern (query req ''uname'')))]
      | None \<Rightarrow> [JVal (QStr (like_pattern (query req ''uname'')))])
     @ [JNum (Num (by_user_limit req))]"

definition by_user_handler :: "env \<Rightarrow> request \<Rightarrow> response" where
  "by_user_handler e req =
     (let dbPath = resolveDbPath e;
          limit = by_user_limit req
      in if falsy (query req ''openId'') \<and> falsy (query req ''uname'')
         then Response 400 (ErrorBody ''Provide openId or uname query parameter.'')
         else case all_rows e dbPath (by_user_sql req) (by_user_params req) of
                Inl errmsg \<Rightarrow> Response 500 (ErrorBody errmsg)
              | Inr rows \<Rightarrow> Response 200 (MessagesBody rows limit))"

definition search_limit :: "request \<Rightarrow> int" where
  "search_limit req = parseLimit (or_default (query req ''limit'') ''100'') 100 500"

text \<open>\<^verbatim>\<open>req.query.keyword ?? req.query.keywords ?? req.query.q\<close>\<close>

definition keywordsRaw :: "request \<Rightarrow> qval option" where
  "keywordsRaw req =
     (case query req ''keyword'' of
        Some v \<Rightarrow> Some v
      | None \<Rightarrow> (case query req ''keywords'' of
                   Some v \<Rightarrow> Some v
                 | None \<Rightarrow> query req ''q''))"

text \<open>The keyword list before trimming: an array as it is, a string split on commas,
  anything else the empty list.\<close>

definition keywords_split :: "qval option \<Rightarrow> qval list" where
  "keywords_split raw =
     (case raw of
        Some (QArr vs) \<Rightarrow> vs
      | Some (QStr s) \<Rightarrow> map QStr (split_comma s)
      | _ \<Rightarrow> [])"

text \<open>\<^verbatim>\<open>k.trim()\<close> exists on strings only: on an array or an object the call raises a
  \<^verbatim>\<open>TypeError\<close>, here \<open>None\<close>.\<close>

fun trim_entry :: "qval \<Rightarrow> string option" where
  "trim_entry (QStr s) = Some (trim s)"
| "trim_entry (QArr vs) = None"
| "trim_entry QObj = None"

fun trim_all :: "qval list \<Rightarrow> string list option" where
  "trim_all [] = Some []"
| "trim_all (k # ks) =
     (case trim_entry k of
        None \<Rightarrow> None
      | Some t \<Rightarrow> (case trim_all ks of None \<Rightarrow> None | Some ts \<Rightarrow> Some (t # ts)))"

text \<open>\<^verbatim>\<open>keywords.map((k) => k.trim()).filter(Boolean)\<close>\<close>

definition search_keywords :: "request \<Rightarrow> string list option" where
  "search_keywords req =
     (case trim_all (keywords_split (keywordsRaw req)) of
        None \<Rightarrow> None
      | Some ts \<Rightarrow> Some (filter (\<lambda>k. k \<noteq> []) ts))"

definition search_where :: "request \<Rightarrow> string list \<Rightarrow> string" where
  "search_where req keywords =
     (let clauses = map (\<lambda>k. ''msg LIKE ? COLLATE NOCASE'') keywords;
          where = ''('' @ join_with '' OR '' clauses @ '')''
      in if \<not> falsy (query req ''roomId'') then ''room_id = ? AND '' @ where else where)"

definition search_sql :: "request \<Rightarrow> string list \<Rightarrow> string" where
  "search_sql req keywords = template
     [''SELECT *'',
      ''FROM danmaku_messages'',
      ''WHERE '' @ search_where req keywords,
      ''ORDER BY '' @ buildTimestampOrderClause @ '' DESC'',
      ''LIMIT ?'']"

definition search_params :: "request \<Rightarrow> string list \<Rightarrow> jsval list" where
  "search_params req keywords =
     (case query req ''roomId'' of
        Some roomId \<Rightarrow> if truthy roomId then [JVal roomId] else []
      | None \<Rightarrow> [])
     @ map (\<lambda>k. JVal (QStr (''%'' @ k @ ''%''))) keywords
     @ [JNum (Num (search_limit req))]"

definition search_handler :: "env \<Rightarrow> request \<Rightarrow> response" where
  "search_handler e req =
     (let dbPath = resolveDbPath e;
          limit = search_limit req
      in case search_keywords req of
           None \<Rightarrow> Response 500 (ErrorBody ''k.trim is not a function'')
         | Some keywords \<Rightarrow>
             if keywords = []
             then Response 400
                    (ErrorBody ''Provide at least one keyword via keyword, keywords, or q query param.'')
             else (case all_rows e dbPath (search_sql req keywords) (search_params req keywords) of
                     Inl errmsg \<Rightarrow> Response 500 (ErrorBody errmsg)
                   | Inr rows \<Rightarrow> Response 200 (SearchBody keywords limit rows)))"

section \<open>The quoted identifier of the table dump\<close>

text \<open>
  How the SQLite tokenizer reads an identifier in double quotes, from the character
  after the opening quote: up to the first quote that is not followed by another one,
  a doubled quote standing for one quote character.  The statement text ends at a NUL
  character, so an identifier that reaches one is unterminated and the statement is
  refused.  The result is the identifier and the rest of the statement.
\<close>

fun sqlite_quoted_ident :: "string \<Rightarrow> (string \<times> string) option" where
  "sqlite_quoted_ident [] = None"
| "sqlite_quoted_ident (c # cs) =
     (if c = nul then None
      else if c = dq then
        (case cs of
           [] \<Rightarrow> Some ([], [])
         | d # ds \<Rightarrow>
             if d = dq then map_option (\<lambda>(i, r). (dq # i, r)) (sqlite_quoted_ident ds)
             else Some ([], cs))
      else map_option (\<lambda>(i, r). (c # i, r)) (sqlite_quoted_ident cs))"


section \<open>The statements as SQLite evaluates them\<close>

text \<open>
  The handlers hand statement text and bound values to the engine.  This section gives
  the meaning SQLite assigns to the statements over \<^verbatim>\<open>danmaku_messages\<close>: a stored
  row is a list of column names with values, a value is \<^verbatim>\<open>NULL\<close>, an integer or a
  text.  Column affinity is not modelled: a bound value is compared with a stored value
  as it is.  Reals and blobs do not occur.
\<close>

definition col_val :: "row \<Rightarrow> string \<Rightarrow> sqlval" where
  "col_val r c = (case map_of r c of None \<Rightarrow> SNull | Some v \<Rightarrow> v)"

text \<open>How a bound JavaScript value reaches the engine: a number as an integer
  (\<^verbatim>\<open>NaN\<close> as \<^verbatim>\<open>NULL\<close>), anything else as the text of its string conversion.\<close>

fun bind :: "jsval \<Rightarrow> sqlval" where
  "bind (JNum NaN) = SNull"
| "bind (JNum (Num n)) = SInt n"
| "bind (JVal v) = SText (to_js_string v)"

definition param :: "sqlval list \<Rightarrow> nat \<Rightarrow> sqlval" where
  "param ps i = (if i < length ps then ps ! i else SNull)"

fun sql_text :: "sqlval \<Rightarrow> string option" where
  "sql_text SNull = None"
| "sql_text (SInt n) = Some (num_to_string (Num n))"
| "sql_text (SText s) = Some s"

subsection \<open>LIKE\<close>

text \<open>The case folding of \<^verbatim>\<open>LIKE\<close>: the letters A to Z only.\<close>

definition lower :: "char \<Rightarrow> char" where
  "lower c =
     (case map_of (zip ''ABCDEFGHIJKLMNOPQRSTUVWXYZ'' ''abcdefghijklmnopqrstuvwxyz'') c of
        None \<Rightarrow> c
      | Some l \<Rightarrow> l)"

text \<open>
  The pattern match of \<^verbatim>\<open>LIKE\<close> without an escape character: a percent sign
  matches any run of characters, also the empty one; an underscore matches any one
  character; any other character matches itself up to case.
\<close>

fun like_match :: "string \<Rightarrow> string \<Rightarrow> bool" where
  "like_match [] s = (s = [])"
| "like_match (p # ps) [] = (p = CHR ''%'' \<and> like_match ps [])"
| "like_match (p # ps) (c # cs) =
     (if p = CHR ''%'' then like_match ps (c # cs) \<or> like_match (p # ps) cs
      else (p = CHR ''_'' \<or> lower p = lower c) \<and> like_match ps cs)"

definition sql_like :: "sqlval \<Rightarrow> sqlval \<Rightarrow> bool option" where
  "sql_like v pat =
     (case (sql_text v, sql_text pat) of
        (Some s, Some p) \<Rightarrow> Some (like_match p s)
      | _ \<Rightarrow> None)"

text \<open>Containment of a text as a substring, up to the case of the letters A to Z.\<close>

fun is_prefix_ci :: "string \<Rightarrow> string \<Rightarrow> bool" where
  "is_prefix_ci [] s = True"
| "is_prefix_ci (k # ks) [] = False"
| "is_prefix_ci (k # ks) (c # cs) = (lower k = lower c \<and> is_prefix_ci ks cs)"

fun contains_ci :: "string \<Rightarrow> string \<Rightarrow> bool" where
  "contains_ci k [] = (k = [])"
| "contains_ci k (c # cs) = (is_prefix_ci k (c # cs) \<or> contains_ci k cs)"

definition is_wildcard :: "char \<Rightarrow> bool" where
  "is_wildcard c = (c = CHR ''%'' \<or> c = CHR ''_'')"

subsection \<open>Comparison and the effective time\<close>

text \<open>
  The order of values: \<^verbatim>\<open>NULL\<close> first, then the integers by value, then the texts
  byte by byte.
\<close>

fun sort_rank :: "sqlval \<Rightarrow> nat \<times> int \<times> nat list" where
  "sort_rank SNull = (0, 0, [])"
| "sort_rank (SInt n) = (1, n, [])"
| "sort_rank (SText s) = (2, 0, map of_char s)"

definition sql_eq :: "sqlval \<Rightarrow> sqlval \<Rightarrow> bool option" where
  "sql_eq a b = (if a = SNull \<or> b = SNull then None else Some (a = b))"

definition sql_ge :: "sqlval \<Rightarrow> sqlval \<Rightarrow> bool option" where
  "sql_ge a b = (if a = SNull \<or> b = SNull then None else Some (sort_rank b \<le> sort_rank a))"

text \<open>
  \<^verbatim>\<open>strftime('%s', v)\<close> is a text: the decimal numeral of the seconds since the
  epoch that the engine reads from \<open>v\<close>, or \<^verbatim>\<open>NULL\<close> where it reads no time.  The
  reading of a time string is the parameter \<open>tv\<close>.
\<close>

definition strftime_s :: "(string \<Rightarrow> int option) \<Rightarrow> sqlval \<Rightarrow> sqlval" where
  "strftime_s tv v =
     (case sql_text v of
        None \<Rightarrow> SNull
      | Some s \<Rightarrow> (case tv s of None \<Rightarrow> SNull | Some n \<Rightarrow> SText (num_to_string (Num n))))"

text \<open>\<^verbatim>\<open>COALESCE(timestamp, strftime('%s', created_at))\<close>\<close>

definition effective_time :: "(string \<Rightarrow> int option) \<Rightarrow> row \<Rightarrow> sqlval" where
  "effective_time tv r =
     (if col_val r ''timestamp'' \<noteq> SNull then col_val r ''timestamp''
      else strftime_s tv (col_val r ''created_at''))"

subsection \<open>Conditions\<close>

datatype atom = Eq string | LikeNocase string | EffGe

datatype cond = Atom atom | OrGroup "atom list" | And cond cond

fun render_atom :: "atom \<Rightarrow> string" where
  "render_atom (Eq c) = c @ '' = ?''"
| "render_atom (LikeNocase c) = c @ '' LIKE ? COLLATE NOCASE''"
| "render_atom EffGe = buildTimestampOrderClause @ '' >= ?''"

fun render_cond :: "cond \<Rightarrow> string" where
  "render_cond (Atom a) = render_atom a"
| "render_cond (OrGroup as) = ''('' @ join_with '' OR '' (map render_atom as) @ '')''"
| "render_cond (And a b) = render_cond a @ '' AND '' @ render_cond b"

fun holes :: "cond \<Rightarrow> nat" where
  "holes (Atom a) = 1"
| "holes (OrGroup as) = length as"
| "holes (And a b) = holes a + holes b"

text \<open>Three-valued connectives: \<open>None\<close> is \<^verbatim>\<open>NULL\<close>.\<close>

fun sql_or :: "bool option \<Rightarrow> bool option \<Rightarrow> bool option" where
  "sql_or (Some True) b = Some True"
| "sql_or a (Some True) = Some True"
| "sql_or (Some False) (Some False) = Some False"
| "sql_or a b = None"

fun sql_and :: "bool option \<Rightarrow> bool option \<Rightarrow> bool option" where
  "sql_and (Some False) b = Some False"
| "sql_and a (Some False) = Some False"
| "sql_and (Some True) (Some True) = Some True"
| "sql_and a b = None"

text \<open>The value of a condition on a row; \<open>i\<close> is the position of its first
  placeholder among the bound values.\<close>

fun eval_atom :: "(string \<Rightarrow> int option) \<Rightarrow> atom \<Rightarrow> nat \<Rightarrow> sqlval list \<Rightarrow> row \<Rightarrow> bool option" where
  "eval_atom tv (Eq c) i ps r = sql_eq (col_val r c) (param ps i)"
| "eval_atom tv (LikeNocase c) i ps r = sql_like (col_val r c) (param ps i)"
| "eval_atom tv EffGe i ps r = sql_ge (effective_time tv r) (param ps i)"

fun eval_or :: "(string \<Rightarrow> int option) \<Rightarrow> atom list \<Rightarrow> nat \<Rightarrow> sqlval list \<Rightarrow> row \<Rightarrow> bool option" where
  "eval_or tv [] i ps r = Some False"
| "eval_or tv [a] i ps r = eval_atom tv a i ps r"
| "eval_or tv (a # b # bs) i ps r = sql_or (eval_atom tv a i ps r) (eval_or tv (b # bs) (Suc i) ps r)"

fun eval_cond :: "(string \<Rightarrow> int option) \<Rightarrow> cond \<Rightarrow> nat \<Rightarrow> sqlval list \<Rightarrow> row \<Rightarrow> bool option" where
  "eval_cond tv (Atom a) i ps r = eval_atom tv a i ps r"
| "eval_cond tv (OrGroup as) i ps r = eval_or tv as i ps r"
| "eval_cond tv (And a b) i ps r =
     sql_and (eval_cond tv a i ps r) (eval_cond tv b (i + holes a) ps r)"

text \<open>A \<^verbatim>\<open>WHERE\<close> clause keeps the rows on which its condition is true.\<close>

definition where_holds :: "(string \<Rightarrow> int option) \<Rightarrow> cond option \<Rightarrow> sqlval list \<Rightarrow> row \<Rightarrow> bool" where
  "where_holds tv w ps r =
     (case w of None \<Rightarrow> True | Some c \<Rightarrow> eval_cond tv c 0 ps r = Some True)"

definition where_holes :: "cond option \<Rightarrow> nat" where
  "where_holes w = (case w of None \<Rightarrow> 0 | Some c \<Rightarrow> holes c)"

subsection \<open>Statements\<close>

datatype stmt =
    SelectMessages "cond option"
  | TopSenders cond
  | CountMessages
  | CountDistinctOpenId "cond option"

fun render_stmt :: "stmt \<Rightarrow> string" where
  "render_stmt (SelectMessages w) = template
     [''SELECT *'',
      ''FROM danmaku_messages'',
      (case w of None \<Rightarrow> [] | Some c \<Rightarrow> ''WHERE '' @ render_cond c),
      ''ORDER BY '' @ buildTimestampOrderClause @ '' DESC'',
      ''LIMIT ?'']"
| "render_stmt (TopSenders c) = template
     [''SELECT uname, open_id, COUNT(*) AS messageCount'',
      ''FROM danmaku_messages'',
      ''WHERE '' @ render_cond c,
      ''GROUP BY open_id, uname'',
      ''ORDER BY messageCount DESC'',
      ''LIMIT ?'']"
| "render_stmt CountMessages = ''SELECT COUNT(*) AS count FROM danmaku_messages''"
| "render_stmt (CountDistinctOpenId w) =
     ''SELECT COUNT(DISTINCT open_id) AS count FROM danmaku_messages''
       @ (case w of None \<Rightarrow> [] | Some c \<Rightarrow> '' WHERE '' @ render_cond c)"

fun stmt_holes :: "stmt \<Rightarrow> nat" where
  "stmt_holes (SelectMessages w) = where_holes w + 1"
| "stmt_holes (TopSenders c) = holes c + 1"
| "stmt_holes CountMessages = 0"
| "stmt_holes (CountDistinctOpenId w) = where_holes w"

text \<open>\<^verbatim>\<open>LIMIT v\<close>: a negative integer is no limit; a value that is no integer is
  refused.\<close>

fun sql_limit :: "sqlval \<Rightarrow> 'a list \<Rightarrow> string + 'a list" where
  "sql_limit (SInt n) xs = Inr (if n < 0 then xs else take (nat n) xs)"
| "sql_limit v xs = Inl ''SQLITE_MISMATCH: datatype mismatch''"

text \<open>\<^verbatim>\<open>ORDER BY key DESC\<close>.  Rows with equal keys come in an order the engine does
  not fix; the model takes one.\<close>

definition order_desc :: "('a \<Rightarrow> 'k::linorder) \<Rightarrow> 'a list \<Rightarrow> 'a list" where
  "order_desc key xs = rev (sort_key key xs)"

definition sender_of :: "row \<Rightarrow> sqlval \<times> sqlval" where
  "sender_of r = (col_val r ''open_id'', col_val r ''uname'')"

text \<open>One row per group of \<^verbatim>\<open>GROUP BY open_id, uname\<close>, with the size of the group.\<close>

definition sender_groups :: "row list \<Rightarrow> ((sqlval \<times> sqlval) \<times> nat) list" where
  "sender_groups rs =
     map (\<lambda>k. (k, length (filter (\<lambda>r. sender_of r = k) rs))) (remdups (map sender_of rs))"

definition sender_row :: "(sqlval \<times> sqlval) \<times> nat \<Rightarrow> row" where
  "sender_row g =
     [(''uname'', snd (fst g)), (''open_id'', fst (fst g)), (''messageCount'', SInt (int (snd g)))]"

definition count_row :: "nat \<Rightarrow> row" where
  "count_row n = [(''count'', SInt (int n))]"

fun exec_stmt :: "(string \<Rightarrow> int option) \<Rightarrow> stmt \<Rightarrow> sqlval list \<Rightarrow> row list \<Rightarrow> string + row list" where
  "exec_stmt tv (SelectMessages w) ps store =
     sql_limit (param ps (where_holes w))
       (order_desc (\<lambda>r. sort_rank (effective_time tv r)) (filter (where_holds tv w ps) store))"
| "exec_stmt tv (TopSenders c) ps store =
     sql_limit (param ps (holes c))
       (map sender_row
          (order_desc snd (sender_groups (filter (where_holds tv (Some c) ps) store))))"
| "exec_stmt tv CountMessages ps store = Inr [count_row (length store)]"
| "exec_stmt tv (CountDistinctOpenId w) ps store =
     Inr [count_row (length (remdups (filter (\<lambda>v. v \<noteq> SNull)
            (map (\<lambda>r. col_val r ''open_id'') (filter (where_holds tv w ps) store)))))]"

text \<open>
  The statements over \<^verbatim>\<open>danmaku_messages\<close> that the handlers build for \<open>n\<close> bound
  values.  The engine of the model recognises a statement by its text; any other text,
  and any other number of bound values, is outside the model.
\<close>

definition candidates :: "nat \<Rightarrow> stmt list" where
  "candidates n =
     [CountMessages,
      CountDistinctOpenId None,
      CountDistinctOpenId (Some (Atom EffGe)),
      TopSenders (Atom EffGe),
      SelectMessages None,
      SelectMessages (Some (Atom (Eq ''room_id''))),
      SelectMessages (Some (Atom (Eq ''open_id''))),
      SelectMessages (Some (Atom (LikeNocase ''uname'')))]
     @ (if 2 \<le> n
        then [SelectMessages (Some (OrGroup (replicate (n - 1) (LikeNocase ''msg''))))] else [])
     @ (if 3 \<le> n
        then [SelectMessages (Some (And (Atom (Eq ''room_id''))
                (OrGroup (replicate (n - 2) (LikeNocase ''msg'')))))] else [])"

definition sqlite_all :: "(string \<Rightarrow> int option) \<Rightarrow> row list \<Rightarrow> string \<Rightarrow> jsval list \<Rightarrow> string + row list" where
  "sqlite_all tv store sql params =
     (case find (\<lambda>q. render_stmt q = sql \<and> stmt_holes q = length params)
             (candidates (length params)) of
        None \<Rightarrow> Inl ''statement outside the model''
      | Some q \<Rightarrow> exec_stmt tv q (map bind params) store)"

text \<open>An environment whose store file exists and holds the rows \<open>store\<close>.\<close>

definition with_store :: "(string \<Rightarrow> int option) \<Rightarrow> row list \<Rightarrow> env \<Rightarrow> env" where
  "with_store tv store e = e\<lparr>existsSync := \<lambda>p. True, db_all := \<lambda>p. sqlite_all tv store\<rparr>"

section \<open>What the handlers ask of the engine\<close>

text \<open>The rows a response carries.\<close>

fun response_rows :: "response \<Rightarrow> row list" where
  "response_rows (Response c (TablesBody p rows)) = rows"
| "response_rows (Response c (RowsBody rows)) = rows"
| "response_rows (Response c (TopUsersBody h l rows)) = rows"
| "response_rows (Response c (MessagesBody rows l)) = rows"
| "response_rows (Response c (SearchBody ks l rows)) = rows"
| "response_rows (Response c b) = []"

text \<open>The statements whose text the three message listings build.\<close>

definition recent_stmt :: "request \<Rightarrow> stmt" where
  "recent_stmt req =
     SelectMessages (if falsy (query req ''roomId'') then None else Some (Atom (Eq ''room_id'')))"

definition by_user_stmt :: "request \<Rightarrow> stmt" where
  "by_user_stmt req =
     SelectMessages (Some (Atom (if \<not> falsy (query req ''openId'') then Eq ''open_id''
                                 else LikeNocase ''uname'')))"

definition search_stmt :: "request \<Rightarrow> nat \<Rightarrow> stmt" where
  "search_stmt req n =
     SelectMessages (Some
       (if \<not> falsy (query req ''roomId'')
        then And (Atom (Eq ''room_id'')) (OrGroup (replicate n (LikeNocase ''msg'')))
        else OrGroup (replicate n (LikeNocase ''msg''))))"

subsection \<open>The rows a statement keeps\<close>

text \<open>
  What the conditions of the listings say of a row, in terms of the request: the equality
  with the room, the equality with the user identifier or the pattern on the display
  name, and one pattern for each keyword.
\<close>

definition room_matches :: "request \<Rightarrow> row \<Rightarrow> bool" where
  "room_matches req r =
     (case query req ''roomId'' of
        None \<Rightarrow> True
      | Some v \<Rightarrow> if truthy v then sql_eq (col_val r ''room_id'') (SText (to_js_string v)) = Some True
                  else True)"

definition uname_like :: "request \<Rightarrow> row \<Rightarrow> bool" where
  "uname_like req r =
     (sql_like (col_val r ''uname'') (SText (like_pattern (query req ''uname''))) = Some True)"

definition by_user_matches :: "request \<Rightarrow> row \<Rightarrow> bool" where
  "by_user_matches req r =
     (case query req ''openId'' of
        None \<Rightarrow> uname_like req r
      | Some v \<Rightarrow> if truthy v then sql_eq (col_val r ''open_id'') (SText (to_js_string v)) = Some True
                  else uname_like req r)"

definition keyword_matches :: "string list \<Rightarrow> row \<Rightarrow> bool" where
  "keyword_matches ks r =
     list_ex (\<lambda>k. sql_like (col_val r ''msg'') (SText (''%'' @ k @ ''%'')) = Some True) ks"

text \<open>The condition of the windowed statistics, and the order of the listings.\<close>

definition in_window :: "(string \<Rightarrow> int option) \<Rightarrow> int \<Rightarrow> row \<Rightarrow> bool" where
  "in_window tv cutoff r = (sql_ge (effective_time tv r) (SInt cutoff) = Some True)"

definition newest_first :: "(string \<Rightarrow> int option) \<Rightarrow> row list \<Rightarrow> row list" where
  "newest_first tv rows = order_desc (\<lambda>r. sort_rank (effective_time tv r)) rows"


definition leaderboard :: "row list \<Rightarrow> row list" where
  "leaderboard rs = map sender_row (order_desc snd (sender_groups rs))"

subsection \<open>Sample data\<close>

text \<open>
  An environment without store file, a request built from its query parameters, a store
  of two messages with integer timestamps and a time reader that reads nothing.
\<close>

definition sample_env :: env where
  "sample_env =
     \<lparr>DB_PATH = None, path_resolve = (\<lambda>p. p), DEFAULT_DB_PATH = ''/srv/danmaku.db'',
      existsSync = (\<lambda>p. False), date_now = 100000000,
      db_all = (\<lambda>p sql ps. Inl ''SQLITE_CANTOPEN: unable to open database file'')\<rparr>"

definition sample_request :: "(string \<times> qval) list \<Rightarrow> request" where
  "sample_request kvs = \<lparr>params_name = ''danmaku_messages'', query = map_of kvs\<rparr>"

definition no_time :: "string \<Rightarrow> int option" where
  "no_time s = None"

definition sample_store :: "row list" where
  "sample_store =
     [[(''id'', SInt 1), (''open_id'', SText ''u1''), (''uname'', SText ''Ann''),
       (''msg'', SText ''abc''), (''room_id'', SText ''7''), (''timestamp'', SInt 300)],
      [(''id'', SInt 2), (''open_id'', SText ''u2''), (''uname'', SText ''Bob''),
       (''msg'', SText ''a_c''), (''room_id'', SText ''8''), (''timestamp'', SInt 200)]]"

subsection \<open>Containment and statement text\<close>

text \<open>A column of a row contains a text, or the message one text of a list, as a substring
  up to the case of the letters A to Z.\<close>

definition col_contains :: "string \<Rightarrow> string \<Rightarrow> row \<Rightarrow> bool" where
  "col_contains c k r =
     (case sql_text (col_val r c) of None \<Rightarrow> False | Some s \<Rightarrow> contains_ci k s)"


text \<open>A text begins with another one, and occurs in another one.\<close>

fun starts_with :: "string \<Rightarrow> string \<Rightarrow> bool" where
  "starts_with [] s = True"
| "starts_with (p # ps) [] = False"
| "starts_with (p # ps) (c # cs) = (p = c \<and> starts_with ps cs)"

text \<open>Wherever the keyword \<open>kw\<close> stands in a statement text, the text \<open>e\<close> follows it.\<close>

fun kw_followed_by :: "string \<Rightarrow> string \<Rightarrow> string \<Rightarrow> bool" where
  "kw_followed_by kw e [] = True"
| "kw_followed_by kw e (c # cs) =
     ((if starts_with kw (c # cs) then starts_with (kw @ e) (c # cs) else True)
      \<and> kw_followed_by kw e cs)"

fun occurs :: "string \<Rightarrow> string \<Rightarrow> bool" where
  "occurs p [] = (p = [])"
| "occurs p (c # cs) = (starts_with p (c # cs) \<or> occurs p cs)"

text \<open>
  The effective time of the data model, in seconds: the timestamp when the row has an
  integer one, else the seconds read from \<^verbatim>\<open>created_at\<close>.
\<close>

definition effective_seconds :: "(string \<Rightarrow> int option) \<Rightarrow> row \<Rightarrow> int option" where
  "effective_seconds tv r =
     (case col_val r ''timestamp'' of
        SInt t \<Rightarrow> Some t
      | SText s \<Rightarrow> None
      | SNull \<Rightarrow> (case sql_text (col_val r ''created_at'') of None \<Rightarrow> None | Some s \<Rightarrow> tv s))"

text \<open>
  A store that mixes a row without timestamp, created in 2001, with a row stamped
  1700000000; the reader of its one time string; and a clock at 1700007200 seconds.
\<close>

definition sample_time :: "string \<Rightarrow> int option" where
  "sample_time s = (if s = ''2001-01-01 00:00:00'' then Some 978307200 else None)"

definition mixed_store :: "row list" where
  "mixed_store =
     [[(''id'', SInt 1), (''open_id'', SText ''u1''), (''uname'', SText ''Ann''),
       (''msg'', SText ''old''), (''room_id'', SText ''7''), (''timestamp'', SNull),
       (''created_at'', SText ''2001-01-01 00:00:00'')],
      [(''id'', SInt 2), (''open_id'', SText ''u2''), (''uname'', SText ''Bob''),
       (''msg'', SText ''new''), (''room_id'', SText ''7''), (''timestamp'', SInt 1700000000),
       (''created_at'', SNull)]]"




section \<open>Properties\<close>

subsection \<open>The engine recognises the statements of the handlers\<close>

lemma sqlite_all_found:
  "find (\<lambda>q. render_stmt q = sql \<and> stmt_holes q = length params) (candidates (length params)) = Some q
   \<Longrightarrow> sqlite_all tv store sql params = exec_stmt tv q (map bind params) store"
  by (simp add: sqlite_all_def)

lemma resolveDbPath_with_store [simp]: "resolveDbPath (with_store tv store e) = resolveDbPath e"
  by (simp add: resolveDbPath_def with_store_def split: option.splits)

lemma all_rows_with_store [simp]:
  "all_rows (with_store tv store e) p sql params = sqlite_all tv store sql params"
  by (simp add: all_rows_def with_store_def)

lemma recent_sql_render: "recent_sql req = render_stmt (recent_stmt req)"
  by (simp add: recent_sql_def recent_clauses_def recent_stmt_def)

lemma recent_params_length:
  "length (recent_params req) = (if falsy (query req ''roomId'') then 1 else 2)"
  by (auto simp: recent_params_def falsy_def split: option.splits)

lemma recent_found:
  "find (\<lambda>q. render_stmt q = recent_sql req \<and> stmt_holes q = length (recent_params req))
     (candidates (length (recent_params req))) = Some (recent_stmt req)"
  by (simp add: recent_sql_render recent_params_length candidates_def template_def where_holes_def
        buildTimestampOrderClause_def recent_stmt_def)

lemma by_user_sql_render: "by_user_sql req = render_stmt (by_user_stmt req)"
  by (cases "falsy (query req ''openId'')")
     (simp_all add: by_user_sql_def by_user_where_def by_user_stmt_def)

lemma by_user_params_length: "length (by_user_params req) = 2"
  by (auto simp: by_user_params_def split: option.splits)

lemma by_user_found:
  "find (\<lambda>q. render_stmt q = by_user_sql req \<and> stmt_holes q = length (by_user_params req))
     (candidates (length (by_user_params req))) = Some (by_user_stmt req)"
  by (cases "falsy (query req ''openId'')")
     (simp_all add: by_user_sql_render by_user_params_length candidates_def template_def
        where_holes_def buildTimestampOrderClause_def by_user_stmt_def)

lemma search_sql_render: "search_sql req ks = render_stmt (search_stmt req (length ks))"
  by (cases "falsy (query req ''roomId'')")
     (simp_all add: search_sql_def search_where_def search_stmt_def map_replicate_const)

lemma search_params_length:
  "length (search_params req ks) =
     (if falsy (query req ''roomId'') then length ks + 1 else length ks + 2)"
  by (auto simp: search_params_def falsy_def split: option.splits)

lemma search_found:
  "ks \<noteq> [] \<Longrightarrow>
   find (\<lambda>q. render_stmt q = search_sql req ks \<and> stmt_holes q = length (search_params req ks))
     (candidates (length (search_params req ks))) = Some (search_stmt req (length ks))"
  by (cases "falsy (query req ''roomId'')"; cases ks)
     (simp_all add: search_sql_render search_params_length candidates_def template_def
        where_holes_def buildTimestampOrderClause_def search_stmt_def)

lemma top_users_found:
  "find (\<lambda>q. render_stmt q = top_users_sql \<and> stmt_holes q = length (top_users_params e req))
     (candidates (length (top_users_params e req))) = Some (TopSenders (Atom EffGe))"
  by (simp add: top_users_sql_def top_users_params_def candidates_def template_def where_holes_def
        buildTimestampOrderClause_def)


subsection \<open>Identifier escaping\<close>

lemma quoted_ident_escape:
  "(case rest of [] \<Rightarrow> True | c # _ \<Rightarrow> c \<noteq> dq) \<Longrightarrow>
   sqlite_quoted_ident (escape_ident name @ dq # rest) =
     (if nul \<in> set name then None else Some (name, rest))"
  by (induction name) (auto simp: escape_ident_def split: list.splits)

lemma escape_ident_quotes:
  "length (filter (\<lambda>c. c = dq) (escape_ident name)) = 2 * length (filter (\<lambda>c. c = dq) name)
   \<and> filter (\<lambda>c. c \<noteq> dq) (escape_ident name) = filter (\<lambda>c. c \<noteq> dq) name"
  by (induction name) (simp_all add: escape_ident_def)

text \<open>
  Claim C1.  Whatever name reaches the table dump, the statement is the fixed prefix, an
  opening quote, the escaped name, a closing quote and the \<^verbatim>\<open>LIMIT\<close>/\<^verbatim>\<open>OFFSET\<close>
  tail; the escaped name has twice the double quotes of the name and the same other
  characters in the same order; and the tokenizer reads the text after the opening quote
  back as exactly one identifier, the name itself, followed by that same tail.  No
  character of the name ends the identifier early, so none of it is read as SQL; a name
  with a NUL character leaves the identifier unterminated and the statement is refused.
\<close>

theorem table_dump_name_is_one_identifier:
  "table_dump_sql name lim off =
     ''SELECT * FROM '' @ dq # escape_ident name
       @ dq # '' LIMIT '' @ num_to_string lim @ '' OFFSET '' @ num_to_string off
   \<and> length (filter (\<lambda>c. c = dq) (escape_ident name)) = 2 * length (filter (\<lambda>c. c = dq) name)
   \<and> filter (\<lambda>c. c \<noteq> dq) (escape_ident name) = filter (\<lambda>c. c \<noteq> dq) name
   \<and> sqlite_quoted_ident
       (escape_ident name @ dq # '' LIMIT '' @ num_to_string lim @ '' OFFSET '' @ num_to_string off)
     = (if nul \<in> set name then None
        else Some (name, '' LIMIT '' @ num_to_string lim @ '' OFFSET '' @ num_to_string off))"
proof (intro conjI)
  show "table_dump_sql name lim off =
     ''SELECT * FROM '' @ dq # escape_ident name
       @ dq # '' LIMIT '' @ num_to_string lim @ '' OFFSET '' @ num_to_string off"
    by (simp add: table_dump_sql_def)
next
  show "length (filter (\<lambda>c. c = dq) (escape_ident name)) = 2 * length (filter (\<lambda>c. c = dq) name)"
    using escape_ident_quotes [of name] by blast
next
  show "filter (\<lambda>c. c \<noteq> dq) (escape_ident name) = filter (\<lambda>c. c \<noteq> dq) name"
    using escape_ident_quotes [of name] by blast
next
  have "case '' LIMIT '' @ num_to_string lim @ '' OFFSET '' @ num_to_string off of
          [] \<Rightarrow> True | c # _ \<Rightarrow> c \<noteq> dq"
    by simp
  then show "sqlite_quoted_ident
       (escape_ident name @ dq # '' LIMIT '' @ num_to_string lim @ '' OFFSET '' @ num_to_string off)
     = (if nul \<in> set name then None
        else Some (name, '' LIMIT '' @ num_to_string lim @ '' OFFSET '' @ num_to_string off))"
    by (rule quoted_ident_escape)
qed

subsection \<open>Three-valued conditions\<close>

lemma sql_or_True: "sql_or a b = Some True \<longleftrightarrow> a = Some True \<or> b = Some True"
  by (cases "(a, b)" rule: sql_or.cases) auto

lemma sql_and_True: "sql_and a b = Some True \<longleftrightarrow> a = Some True \<and> b = Some True"
  by (cases "(a, b)" rule: sql_and.cases) auto

lemma eval_or_True:
  "eval_or tv as i ps r = Some True \<longleftrightarrow> (\<exists>j<length as. eval_atom tv (as ! j) (i + j) ps r = Some True)"
proof (induction tv as i ps r rule: eval_or.induct)
  case (1 tv i ps r)
  show ?case by simp
next
  case (2 tv a i ps r)
  show ?case by simp
next
  case (3 tv a b bs i ps r)
  have "(\<exists>j<Suc (length (b # bs)). eval_atom tv ((a # b # bs) ! j) (i + j) ps r = Some True)
        \<longleftrightarrow> eval_atom tv a i ps r = Some True
          \<or> (\<exists>j<length (b # bs). eval_atom tv ((b # bs) ! j) (Suc i + j) ps r = Some True)"
    using Ex_less_Suc2 [of "length (b # bs)"
            "\<lambda>j. eval_atom tv ((a # b # bs) ! j) (i + j) ps r = Some True"]
    by simp
  with 3 show ?case by (simp add: sql_or_True del: eval_atom.simps)
qed

subsection \<open>Limits and windows of the requests\<close>

lemma parseLimit_range:
  "0 < fb \<Longrightarrow> fb \<le> mx \<Longrightarrow> 0 < parseLimit raw fb mx \<and> parseLimit raw fb mx \<le> mx"
  by (auto split: jsnum.splits)

lemma parse_int10_empty: "parse_int10 [] = NaN"
  by (simp add: parse_int10_def)

lemma parse_int10_defaults:
  "parse_int10 ''50'' = Num 50" "parse_int10 ''100'' = Num 100" "parse_int10 ''10'' = Num 10"
  "parse_int10 ''24'' = Num 24"
  by (simp_all add: parse_int10_def is_space_def is_digit_def digits_val_def digit_val_def)

lemma parseInt_or_default:
  "parseInt (or_default q d) =
     (case q of None \<Rightarrow> parse_int10 d
      | Some v \<Rightarrow> (case parseInt v of NaN \<Rightarrow> if truthy v then NaN else parse_int10 d | Num n \<Rightarrow> Num n))"
proof (cases q)
  case None
  then show ?thesis by (simp add: or_default_def parseInt_def)
next
  case (Some v)
  show ?thesis
  proof (cases "truthy v")
    case True
    with Some show ?thesis by (simp add: or_default_def split: jsnum.splits)
  next
    case False
    then have "v = QStr []" by (cases v) auto
    with Some show ?thesis by (simp add: or_default_def parseInt_def parse_int10_empty)
  qed
qed

lemma parseLimit_or_default:
  assumes "parse_int10 d = Num fb" "0 < fb" "fb \<le> mx"
  shows "parseLimit (or_default q d) fb mx =
     (case q of None \<Rightarrow> fb
      | Some v \<Rightarrow> (case parseInt v of NaN \<Rightarrow> fb | Num n \<Rightarrow> if n \<le> 0 then fb else min n mx))"
  using assms by (simp add: parseInt_or_default split: option.splits jsnum.splits)


lemma recent_limit_range: "0 < recent_limit req \<and> recent_limit req \<le> 200"
  unfolding recent_limit_def by (rule parseLimit_range) simp_all

lemma by_user_limit_range: "0 < by_user_limit req \<and> by_user_limit req \<le> 500"
  unfolding by_user_limit_def by (rule parseLimit_range) simp_all

lemma search_limit_range: "0 < search_limit req \<and> search_limit req \<le> 500"
  unfolding search_limit_def by (rule parseLimit_range) simp_all

lemma top_users_limit_range: "0 < top_users_limit req \<and> top_users_limit req \<le> 100"
  unfolding top_users_limit_def by (rule parseLimit_range) simp_all

subsection \<open>The answers over a store\<close>

lemma recent_where_holds:
  "where_holds tv (if falsy (query req ''roomId'') then None else Some (Atom (Eq ''room_id'')))
     (map bind (recent_params req)) r = room_matches req r"
  by (auto simp: where_holds_def room_matches_def recent_params_def falsy_def param_def
           split: option.splits)

lemma recent_limit_param:
  "param (map bind (recent_params req))
     (where_holes (if falsy (query req ''roomId'') then None else Some (Atom (Eq ''room_id''))))
   = SInt (recent_limit req)"
  by (auto simp: recent_params_def falsy_def param_def where_holes_def split: option.splits)

lemma recent_handler_with_store:
  "recent_handler (with_store tv store e) req =
     Response 200 (MessagesBody
       (take (nat (recent_limit req)) (newest_first tv (filter (room_matches req) store)))
       (recent_limit req))"
proof -
  have "\<not> recent_limit req < 0" using recent_limit_range [of req] by simp
  then show ?thesis
    by (simp add: recent_handler_def sqlite_all_found [OF recent_found] recent_stmt_def
          recent_where_holds recent_limit_param newest_first_def cong: filter_cong)
qed

lemma by_user_where_holds:
  "where_holds tv (Some (Atom (if \<not> falsy (query req ''openId'') then Eq ''open_id''
                                 else LikeNocase ''uname'')))
     (map bind (by_user_params req)) r = by_user_matches req r"
  by (auto simp: where_holds_def by_user_matches_def uname_like_def by_user_params_def falsy_def
        param_def split: option.splits)

lemma by_user_limit_param:
  "param (map bind (by_user_params req)) (Suc 0) = SInt (by_user_limit req)"
  by (auto simp: by_user_params_def param_def split: option.splits)

lemma by_user_handler_with_store:
  "by_user_handler (with_store tv store e) req =
     (if falsy (query req ''openId'') \<and> falsy (query req ''uname'')
      then Response 400 (ErrorBody ''Provide openId or uname query parameter.'')
      else Response 200 (MessagesBody
             (take (nat (by_user_limit req)) (newest_first tv (filter (by_user_matches req) store)))
             (by_user_limit req)))"
proof -
  have "\<not> by_user_limit req < 0" using by_user_limit_range [of req] by simp
  then show ?thesis
    by (simp add: by_user_handler_def sqlite_all_found [OF by_user_found] by_user_stmt_def
          by_user_where_holds by_user_limit_param newest_first_def where_holes_def
          cong: filter_cong)
qed

lemma or_group_likes:
  assumes "ps = pre @ map (\<lambda>k. SText (''%'' @ k @ ''%'')) ks @ post"
  shows "eval_or tv (replicate (length ks) (LikeNocase c)) (length pre) ps r = Some True
         \<longleftrightarrow> list_ex (\<lambda>k. sql_like (col_val r c) (SText (''%'' @ k @ ''%'')) = Some True) ks"
proof -
  have p: "param ps (length pre + j) = SText (''%'' @ ks ! j @ ''%'')" if "j < length ks" for j
    using that assms by (simp add: param_def nth_append)
  have "eval_or tv (replicate (length ks) (LikeNocase c)) (length pre) ps r = Some True
        \<longleftrightarrow> (\<exists>j<length ks. sql_like (col_val r c) (param ps (length pre + j)) = Some True)"
    by (simp add: eval_or_True cong: conj_cong)
  also have "\<dots> \<longleftrightarrow> (\<exists>j<length ks. sql_like (col_val r c) (SText (''%'' @ ks ! j @ ''%'')) = Some True)"
    using p by (simp cong: conj_cong)
  also have "\<dots> \<longleftrightarrow> (\<exists>k\<in>set ks. sql_like (col_val r c) (SText (''%'' @ k @ ''%'')) = Some True)"
    by (metis in_set_conv_nth)
  finally show ?thesis by (simp add: list_ex_iff)
qed

lemma search_where_holds:
  "where_holds tv
     (Some (if \<not> falsy (query req ''roomId'')
            then And (Atom (Eq ''room_id'')) (OrGroup (replicate (length ks) (LikeNocase ''msg'')))
            else OrGroup (replicate (length ks) (LikeNocase ''msg''))))
     (map bind (search_params req ks)) r
   = (room_matches req r \<and> keyword_matches ks r)"
proof (cases "falsy (query req ''roomId'')")
  case True
  then have ps: "map bind (search_params req ks) =
      [] @ map (\<lambda>k. SText (''%'' @ k @ ''%'')) ks @ [SInt (search_limit req)]"
    by (auto simp: search_params_def falsy_def split: option.splits)
  from True have "room_matches req r"
    by (auto simp: room_matches_def falsy_def split: option.splits)
  with True or_group_likes [OF ps, of tv "''msg''" r] show ?thesis
    by (simp add: where_holds_def keyword_matches_def)
next
  case False
  then obtain v where v: "query req ''roomId'' = Some v" "truthy v"
    by (auto simp: falsy_def split: option.splits)
  then have ps: "map bind (search_params req ks) =
      [SText (to_js_string v)] @ map (\<lambda>k. SText (''%'' @ k @ ''%'')) ks @ [SInt (search_limit req)]"
    by (simp add: search_params_def)
  have "param (map bind (search_params req ks)) 0 = SText (to_js_string v)"
    by (simp add: ps param_def)
  with False v or_group_likes [OF ps, of tv "''msg''" r] show ?thesis
    by (simp add: where_holds_def keyword_matches_def room_matches_def sql_and_True)
qed

lemma search_limit_param:
  "param (map bind (search_params req ks))
     (where_holes (Some (if \<not> falsy (query req ''roomId'')
            then And (Atom (Eq ''room_id'')) (OrGroup (replicate (length ks) (LikeNocase ''msg'')))
            else OrGroup (replicate (length ks) (LikeNocase ''msg'')))))
   = SInt (search_limit req)"
  by (auto simp: search_params_def falsy_def param_def where_holes_def nth_append split: option.splits)

lemma search_handler_with_store:
  assumes "search_keywords req = Some ks" "ks \<noteq> []"
  shows "search_handler (with_store tv store e) req =
     Response 200 (SearchBody ks (search_limit req)
       (take (nat (search_limit req))
          (newest_first tv (filter (\<lambda>r. room_matches req r \<and> keyword_matches ks r) store))))"
proof -
  have "\<not> search_limit req < 0" using search_limit_range [of req] by simp
  with assms show ?thesis
    by (simp add: search_handler_def sqlite_all_found [OF search_found] search_stmt_def
          search_where_holds search_limit_param newest_first_def cong: filter_cong)
qed

lemma cutoff_of_with_store [simp]: "cutoff_of (with_store tv store e) h = cutoff_of e h"
  by (simp add: cutoff_of_def with_store_def)

lemma top_users_handler_with_store:
  "top_users_handler (with_store tv store e) req =
     Response 200 (TopUsersBody (top_users_hours req) (top_users_limit req)
       (take (nat (top_users_limit req))
          (leaderboard (filter (in_window tv (cutoff_of e (top_users_hours req))) store))))"
proof -
  have "\<not> top_users_limit req < 0" using top_users_limit_range [of req] by simp
  moreover have "sqlite_all tv store top_users_sql (top_users_params (with_store tv store e) req)
      = exec_stmt tv (TopSenders (Atom EffGe))
          (map bind (top_users_params (with_store tv store e) req)) store"
    by (rule sqlite_all_found [OF top_users_found])
  ultimately show ?thesis
    by (simp add: top_users_handler_def leaderboard_def
          top_users_params_def where_holds_def in_window_def param_def cong: filter_cong)
qed



subsection \<open>Keyword lists\<close>

lemma trim_all_strings: "trim_all (map QStr ks) = Some (map trim ks)"
  by (induction ks) simp_all

lemma join_split_comma: "join_with '','' (split_comma s) = s"
proof (induction s)
  case Nil
  show ?case by simp
next
  case (Cons c s)
  then show ?case
    by (cases "split_comma s"; cases "tl (split_comma s)") (auto split: list.splits)
qed

lemma split_comma_no_comma: "p \<in> set (split_comma s) \<Longrightarrow> CHR '','' \<notin> set p"
  by (induction s arbitrary: p) (auto split: if_splits list.splits)

subsection \<open>A missing store file\<close>

text \<open>
  Claim C3, at the handlers that do not test for the store file themselves.  With the
  file missing, the message count, both unique-user counts, the top senders and the
  recent messages answer with status 500 and the message of the accessor; only the table
  list and the table dump answer 404 with the path.
\<close>

theorem missing_store_answers:
  "history_count_handler (e\<lparr>existsSync := \<lambda>p. False\<rparr>) req
     = Response 500 (ErrorBody (''DB file not found: '' @ resolveDbPath e))
   \<and> unique_users_handler (e\<lparr>existsSync := \<lambda>p. False\<rparr>) req
     = Response 500 (ErrorBody (''DB file not found: '' @ resolveDbPath e))
   \<and> unique_users_24h_handler (e\<lparr>existsSync := \<lambda>p. False\<rparr>) req
     = Response 500 (ErrorBody (''DB file not found: '' @ resolveDbPath e))
   \<and> top_users_handler (e\<lparr>existsSync := \<lambda>p. False\<rparr>) req
     = Response 500 (ErrorBody (''DB file not found: '' @ resolveDbPath e))
   \<and> recent_handler (e\<lparr>existsSync := \<lambda>p. False\<rparr>) req
     = Response 500 (ErrorBody (''DB file not found: '' @ resolveDbPath e))
   \<and> tables_handler (e\<lparr>existsSync := \<lambda>p. False\<rparr>) req
     = Response 404 (ErrorPathBody ''db not found'' (resolveDbPath e))
   \<and> table_dump_handler (e\<lparr>existsSync := \<lambda>p. False\<rparr>) req
     = Response 404 (ErrorPathBody ''db not found'' (resolveDbPath e))"
proof -
  have r: "resolveDbPath (e\<lparr>existsSync := \<lambda>p. False\<rparr>) = resolveDbPath e"
    by (simp add: resolveDbPath_def split: option.splits)
  have a: "all_rows (e\<lparr>existsSync := \<lambda>p. False\<rparr>) p sql ps = Inl (''DB file not found: '' @ p)"
    for p sql ps
    by (simp add: all_rows_def)
  show ?thesis
    by (simp add: r a history_count_handler_def unique_users_handler_def
          unique_users_24h_handler_def top_users_handler_def recent_handler_def
          tables_handler_def table_dump_handler_def Let_def)
qed

subsection \<open>The size of the answers\<close>

text \<open>
  Claim C4.  Each of the three limits is the fallback when the parameter is absent, does
  not parse as an integer or parses as an integer that is not positive, and otherwise the
  parsed integer cut down to the maximum; and over a store the response carries no more
  rows than the maximum.
\<close>

theorem limit_fallback_and_clamp:
  "recent_limit req =
     (case query req ''limit'' of None \<Rightarrow> 50
      | Some v \<Rightarrow> (case parseInt v of NaN \<Rightarrow> 50 | Num n \<Rightarrow> if n \<le> 0 then 50 else min n 200))
   \<and> by_user_limit req =
     (case query req ''limit'' of None \<Rightarrow> 100
      | Some v \<Rightarrow> (case parseInt v of NaN \<Rightarrow> 100 | Num n \<Rightarrow> if n \<le> 0 then 100 else min n 500))
   \<and> top_users_limit req =
     (case query req ''limit'' of None \<Rightarrow> 10
      | Some v \<Rightarrow> (case parseInt v of NaN \<Rightarrow> 10 | Num n \<Rightarrow> if n \<le> 0 then 10 else min n 100))
   \<and> length (response_rows (recent_handler (with_store tv store e) req)) \<le> nat (recent_limit req)
   \<and> recent_limit req \<le> 200
   \<and> length (response_rows (by_user_handler (with_store tv store e) req)) \<le> nat (by_user_limit req)
   \<and> by_user_limit req \<le> 500
   \<and> length (response_rows (top_users_handler (with_store tv store e) req)) \<le> nat (top_users_limit req)
   \<and> top_users_limit req \<le> 100"
proof (intro conjI)
  show "recent_limit req =
     (case query req ''limit'' of None \<Rightarrow> 50
      | Some v \<Rightarrow> (case parseInt v of NaN \<Rightarrow> 50 | Num n \<Rightarrow> if n \<le> 0 then 50 else min n 200))"
    unfolding recent_limit_def by (rule parseLimit_or_default) (simp_all add: parse_int10_defaults)
  show "by_user_limit req =
     (case query req ''limit'' of None \<Rightarrow> 100
      | Some v \<Rightarrow> (case parseInt v of NaN \<Rightarrow> 100 | Num n \<Rightarrow> if n \<le> 0 then 100 else min n 500))"
    unfolding by_user_limit_def by (rule parseLimit_or_default) (simp_all add: parse_int10_defaults)
  show "top_users_limit req =
     (case query req ''limit'' of None \<Rightarrow> 10
      | Some v \<Rightarrow> (case parseInt v of NaN \<Rightarrow> 10 | Num n \<Rightarrow> if n \<le> 0 then 10 else min n 100))"
    unfolding top_users_limit_def by (rule parseLimit_or_default) (simp_all add: parse_int10_defaults)
  show "length (response_rows (recent_handler (with_store tv store e) req)) \<le> nat (recent_limit req)"
    by (simp add: recent_handler_with_store)
  show "length (response_rows (by_user_handler (with_store tv store e) req)) \<le> nat (by_user_limit req)"
    by (simp add: by_user_handler_with_store)
  show "length (response_rows (top_users_handler (with_store tv store e) req)) \<le> nat (top_users_limit req)"
    by (simp add: top_users_handler_with_store)
  show "recent_limit req \<le> 200" using recent_limit_range by simp
  show "by_user_limit req \<le> 500" using by_user_limit_range by simp
  show "top_users_limit req \<le> 100" using top_users_limit_range by simp
qed

subsection \<open>The keyword normaliser\<close>

text \<open>
  Claim C7.  The keyword parameter is the first defined one of \<^verbatim>\<open>keyword\<close>,
  \<^verbatim>\<open>keywords\<close> and \<^verbatim>\<open>q\<close>.  A string is split on commas, an array of strings is
  taken as it is; every entry is trimmed and the empty ones are dropped; an absent
  parameter gives the empty list.  When the list is empty the answer is the client error
  400 in every environment, whatever the store would return.
\<close>

theorem keyword_list_normalised:
  "(keywordsRaw req = Some (QStr s) \<longrightarrow>
      search_keywords req = Some (filter (\<lambda>k. k \<noteq> []) (map trim (split_comma s))))
   \<and> (keywordsRaw req = Some (QArr (map QStr ks)) \<longrightarrow>
      search_keywords req = Some (filter (\<lambda>k. k \<noteq> []) (map trim ks)))
   \<and> (keywordsRaw req = None \<longrightarrow> search_keywords req = Some [])
   \<and> (search_keywords req = Some [] \<longrightarrow>
      search_handler e req =
        Response 400
          (ErrorBody ''Provide at least one keyword via keyword, keywords, or q query param.''))"
  by (simp add: search_keywords_def keywords_split_def trim_all_strings search_handler_def
        comp_def)

theorem keyword_list_normalised_witness:
  "search_keywords (sample_request [(''q'', QStr ''foo, ,Bar ''), (''limit'', QStr ''5'')])
     = Some [''foo'', ''Bar'']
   \<and> search_keywords (sample_request [(''keywords'', QArr [QStr '' a '', QStr '' '']), (''q'', QStr ''z'')])
     = Some [''a'']
   \<and> search_keywords (sample_request [(''roomId'', QStr ''7'')]) = Some []
   \<and> search_handler sample_env (sample_request [(''keyword'', QStr '' , ''), (''q'', QStr ''z'')])
     = Response 400
         (ErrorBody ''Provide at least one keyword via keyword, keywords, or q query param.'')"
proof -
  let ?r1 = "sample_request [(''q'', QStr ''foo, ,Bar ''), (''limit'', QStr ''5'')]"
  let ?r2 = "sample_request [(''keywords'', QArr [QStr '' a '', QStr '' '']), (''q'', QStr ''z'')]"
  let ?r3 = "sample_request [(''roomId'', QStr ''7'')]"
  let ?r4 = "sample_request [(''keyword'', QStr '' , ''), (''q'', QStr ''z'')]"
  have k1: "keywordsRaw ?r1 = Some (QStr ''foo, ,Bar '')"
    and k2: "keywordsRaw ?r2 = Some (QArr (map QStr ['' a '', '' '']))"
    and k3: "keywordsRaw ?r3 = None"
    and k4: "keywordsRaw ?r4 = Some (QStr '' , '')"
    by (simp_all add: keywordsRaw_def sample_request_def)
  have "search_keywords ?r1 = Some [''foo'', ''Bar'']"
    using keyword_list_normalised [of ?r1 "''foo, ,Bar ''"] k1
    by (simp add: trim_def is_space_def)
  moreover have "search_keywords ?r2 = Some [''a'']"
    using keyword_list_normalised [of ?r2 _ "['' a '', '' '']"] k2
    by (simp add: trim_def is_space_def)
  moreover have "search_keywords ?r3 = Some []"
    using keyword_list_normalised [of ?r3] k3 by simp
  moreover have "search_keywords ?r4 = Some []"
    using keyword_list_normalised [of ?r4 "'' , ''"] k4
    by (simp add: trim_def is_space_def)
  then have "search_handler sample_env ?r4 = Response 400
         (ErrorBody ''Provide at least one keyword via keyword, keywords, or q query param.'')"
    using keyword_list_normalised [of ?r4 _ _ sample_env] by simp
  ultimately show ?thesis by simp
qed

subsection \<open>Patterns and containment\<close>

lemma like_match_percent: "like_match ''%'' s"
  by (induction s) simp_all

lemma like_match_prefix:
  "\<not> list_ex is_wildcard k \<Longrightarrow> like_match (k @ ''%'') s = is_prefix_ci k s"
proof (induction k arbitrary: s)
  case Nil
  show ?case using like_match_percent by simp
next
  case (Cons c k)
  then show ?case by (cases s) (auto simp: is_wildcard_def)
qed

lemma like_match_contains:
  "\<not> list_ex is_wildcard k \<Longrightarrow> like_match (''%'' @ k @ ''%'') s = contains_ci k s"
proof (induction s)
  case Nil
  then show ?case using like_match_prefix [of k "[]"] by (cases k) auto
next
  case (Cons c s)
  then show ?case using like_match_prefix [of k "c # s"] by simp
qed

lemma col_val_simps:
  "col_val [] c = SNull"
  "col_val ((k, v) # r) c = (if k = c then v else col_val r c)"
  by (simp_all add: col_val_def)

lemma sql_like_contains:
  "\<not> list_ex is_wildcard k \<Longrightarrow>
   (sql_like (col_val r c) (SText (''%'' @ k @ ''%'')) = Some True) = col_contains c k r"
  using like_match_contains [of k]
  by (simp add: sql_like_def col_contains_def split: option.splits)




text \<open>
  Claim C10.  The text of the request goes between two percent signs as it is.  Over the
  sample store, a search by the display name \<^verbatim>\<open>_\<close> returns both rows although neither
  name contains an underscore, and a keyword search for \<^verbatim>\<open>a%c\<close> returns the message
  \<^verbatim>\<open>abc\<close> and the message \<^verbatim>\<open>a_c\<close>, neither of which contains that text.
\<close>

theorem like_wildcards_reach_the_pattern:
  "by_user_params (sample_request [(''uname'', QStr ''_'')])
     = [JVal (QStr ''%_%''), JNum (Num 100)]
   \<and> by_user_handler (with_store no_time sample_store sample_env)
         (sample_request [(''uname'', QStr ''_'')])
     = Response 200 (MessagesBody sample_store 100)
   \<and> list_all (\<lambda>r. \<not> col_contains ''uname'' ''_'' r) sample_store
   \<and> search_params (sample_request [(''q'', QStr ''a%c'')]) [''a%c'']
     = [JVal (QStr ''%a%c%''), JNum (Num 100)]
   \<and> search_handler (with_store no_time sample_store sample_env)
         (sample_request [(''q'', QStr ''a%c'')])
     = Response 200 (SearchBody [''a%c''] 100 sample_store)
   \<and> list_all (\<lambda>r. \<not> col_contains ''msg'' ''a%c'' r) sample_store"
proof -
  have k: "search_keywords (sample_request [(''q'', QStr ''a%c'')]) = Some [''a%c'']"
    by (simp add: search_keywords_def keywords_split_def keywordsRaw_def sample_request_def
          trim_def is_space_def)
  have l: "search_limit (sample_request [(''q'', QStr ''a%c'')]) = 100"
    by (simp add: search_limit_def sample_request_def or_default_def parseInt_def
          parse_int10_defaults)
  have "search_handler (with_store no_time sample_store sample_env)
         (sample_request [(''q'', QStr ''a%c'')])
     = Response 200 (SearchBody [''a%c''] 100 sample_store)"
    by (simp add: search_handler_with_store [OF k] l)
       (simp add: sample_request_def sample_store_def newest_first_def
          order_desc_def room_matches_def keyword_matches_def sql_like_def
          col_val_simps effective_time_def)
  moreover have "by_user_handler (with_store no_time sample_store sample_env)
         (sample_request [(''uname'', QStr ''_'')])
     = Response 200 (MessagesBody sample_store 100)"
    by (simp add: by_user_handler_with_store sample_request_def falsy_def by_user_limit_def
        or_default_def parseInt_def parse_int10_defaults sample_store_def newest_first_def
        order_desc_def by_user_matches_def uname_like_def like_pattern_def sql_like_def
        col_val_simps effective_time_def)
  moreover have "by_user_params (sample_request [(''uname'', QStr ''_'')])
     = [JVal (QStr ''%_%''), JNum (Num 100)]"
    by (simp add: by_user_params_def sample_request_def like_pattern_def by_user_limit_def
        or_default_def parseInt_def parse_int10_defaults)
  moreover have "search_params (sample_request [(''q'', QStr ''a%c'')]) [''a%c'']
     = [JVal (QStr ''%a%c%''), JNum (Num 100)]"
    by (simp add: search_params_def l) (simp add: sample_request_def)
  moreover have "list_all (\<lambda>r. \<not> col_contains ''uname'' ''_'' r) sample_store"
    by (simp add: sample_store_def col_contains_def col_val_simps lower_def)
  moreover have "list_all (\<lambda>r. \<not> col_contains ''msg'' ''a%c'' r) sample_store"
    by (simp add: sample_store_def col_contains_def col_val_simps lower_def)
  ultimately show ?thesis by simp
qed

subsection \<open>Keyword search\<close>




subsection \<open>Search by user\<close>

text \<open>
  Claim C5, as the statement is evaluated.  The claim fails in the display-name branch on
  a name with a wildcard: over the sample store the name \<^verbatim>\<open>B%b\<close> returns the row of
  \<^verbatim>\<open>Bob\<close>, whose name does not contain it.
\<close>

theorem by_user_wildcard_counterexample:
  "by_user_handler (with_store no_time sample_store sample_env)
         (sample_request [(''uname'', QStr ''B%b'')])
     = Response 200 (MessagesBody (tl sample_store) 100)
   \<and> \<not> col_contains ''uname'' ''B%b'' (hd (tl sample_store))"
proof -
  have "by_user_handler (with_store no_time sample_store sample_env)
         (sample_request [(''uname'', QStr ''B%b'')])
     = Response 200 (MessagesBody (tl sample_store) 100)"
    by (simp add: by_user_handler_with_store sample_request_def falsy_def by_user_limit_def
        or_default_def parseInt_def parse_int10_defaults sample_store_def newest_first_def
        order_desc_def by_user_matches_def uname_like_def like_pattern_def sql_like_def
        col_val_simps effective_time_def lower_def)
  moreover have "\<not> col_contains ''uname'' ''B%b'' (hd (tl sample_store))"
    by (simp add: sample_store_def col_contains_def col_val_simps lower_def)
  ultimately show ?thesis by simp
qed

text \<open>
  Claim C5, amended.  A parameter counts as supplied when it is not the empty string.
  With \<^verbatim>\<open>openId\<close> supplied the statement compares \<^verbatim>\<open>open_id\<close> with it for equality
  and \<^verbatim>\<open>uname\<close> occurs nowhere.  With only \<^verbatim>\<open>uname\<close> supplied the statement matches
  the display name against the pattern \<^verbatim>\<open>%uname%\<close> under \<^verbatim>\<open>LIKE\<close>, which is
  containment up to the case of the letters A to Z when the name holds no percent sign
  and no underscore.  With neither, the answer is the client error 400 in every
  environment.  In the first two cases the answer over a store is the first \<open>limit\<close>
  matching rows in the order of the statement.
\<close>

theorem by_user_one_branch:
  "(query req ''openId'' = Some v \<and> truthy v \<longrightarrow>
      by_user_where req = ''open_id = ?''
      \<and> by_user_params req = [JVal v, JNum (Num (by_user_limit req))]
      \<and> by_user_matches req = (\<lambda>r. sql_eq (col_val r ''open_id'') (SText (to_js_string v)) = Some True))
   \<and> (falsy (query req ''openId'') \<and> query req ''uname'' = Some u \<and> truthy u \<longrightarrow>
      by_user_where req = ''uname LIKE ? COLLATE NOCASE''
      \<and> by_user_params req
          = [JVal (QStr (''%'' @ to_js_string u @ ''%'')), JNum (Num (by_user_limit req))]
      \<and> by_user_matches req
          = (\<lambda>r. sql_like (col_val r ''uname'') (SText (''%'' @ to_js_string u @ ''%'')) = Some True)
      \<and> (\<not> list_ex is_wildcard (to_js_string u) \<longrightarrow>
           by_user_matches req = col_contains ''uname'' (to_js_string u)))
   \<and> (falsy (query req ''openId'') \<and> falsy (query req ''uname'') \<longrightarrow>
      by_user_handler e req = Response 400 (ErrorBody ''Provide openId or uname query parameter.''))
   \<and> (\<not> (falsy (query req ''openId'') \<and> falsy (query req ''uname'')) \<longrightarrow>
      by_user_handler (with_store tv store e) req =
        Response 200 (MessagesBody
          (take (nat (by_user_limit req)) (newest_first tv (filter (by_user_matches req) store)))
          (by_user_limit req)))"
proof (intro conjI impI)
  assume a: "query req ''openId'' = Some v \<and> truthy v"
  then show "by_user_where req = ''open_id = ?''"
    by (simp add: by_user_where_def falsy_def)
  from a show "by_user_params req = [JVal v, JNum (Num (by_user_limit req))]"
    by (simp add: by_user_params_def)
  from a show "by_user_matches req
      = (\<lambda>r. sql_eq (col_val r ''open_id'') (SText (to_js_string v)) = Some True)"
    by (intro ext) (simp add: by_user_matches_def)
next
  assume a: "falsy (query req ''openId'') \<and> query req ''uname'' = Some u \<and> truthy u"
  then show "by_user_where req = ''uname LIKE ? COLLATE NOCASE''"
    by (simp add: by_user_where_def)
  from a show "by_user_params req
      = [JVal (QStr (''%'' @ to_js_string u @ ''%'')), JNum (Num (by_user_limit req))]"
    by (auto simp: by_user_params_def falsy_def like_pattern_def split: option.splits)
  from a show m: "by_user_matches req
      = (\<lambda>r. sql_like (col_val r ''uname'') (SText (''%'' @ to_js_string u @ ''%'')) = Some True)"
    by (intro ext)
       (auto simp: by_user_matches_def uname_like_def falsy_def like_pattern_def split: option.splits)
  assume "\<not> list_ex is_wildcard (to_js_string u)"
  then show "by_user_matches req = col_contains ''uname'' (to_js_string u)"
    unfolding m using sql_like_contains [of "to_js_string u" _ "''uname''"] by (intro ext) simp
next
  assume "falsy (query req ''openId'') \<and> falsy (query req ''uname'')"
  then show "by_user_handler e req
      = Response 400 (ErrorBody ''Provide openId or uname query parameter.'')"
    by (simp add: by_user_handler_def)
next
  assume "\<not> (falsy (query req ''openId'') \<and> falsy (query req ''uname''))"
  then show "by_user_handler (with_store tv store e) req =
        Response 200 (MessagesBody
          (take (nat (by_user_limit req)) (newest_first tv (filter (by_user_matches req) store)))
          (by_user_limit req))"
    by (simp add: by_user_handler_with_store)
qed

theorem by_user_one_branch_witness:
  "by_user_handler (with_store no_time sample_store sample_env)
     (sample_request [(''openId'', QStr ''u1''), (''uname'', QStr ''bob'')])
   = Response 200 (MessagesBody [hd sample_store] 100)
   \<and> by_user_params (sample_request [(''openId'', QStr ''u1''), (''uname'', QStr ''bob'')])
   = [JVal (QStr ''u1''), JNum (Num 100)]
   \<and> by_user_handler (with_store no_time sample_store sample_env)
     (sample_request [(''openId'', QStr ''''), (''uname'', QStr ''bO'')])
   = Response 200 (MessagesBody (tl sample_store) 100)
   \<and> by_user_matches (sample_request [(''openId'', QStr ''''), (''uname'', QStr ''bO'')])
   = col_contains ''uname'' ''bO''
   \<and> by_user_handler sample_env (sample_request [(''limit'', QStr ''3'')])
   = Response 400 (ErrorBody ''Provide openId or uname query parameter.'')"
proof -
  let ?r1 = "sample_request [(''openId'', QStr ''u1''), (''uname'', QStr ''bob'')]"
  let ?r2 = "sample_request [(''openId'', QStr ''''), (''uname'', QStr ''bO'')]"
  let ?r3 = "sample_request [(''limit'', QStr ''3'')]"
  have l: "by_user_limit ?r1 = 100" "by_user_limit ?r2 = 100"
    by (simp_all add: by_user_limit_def sample_request_def or_default_def parseInt_def
          parse_int10_defaults)
  have q1: "query ?r1 ''openId'' = Some (QStr ''u1'') \<and> truthy (QStr ''u1'')"
    by (simp add: sample_request_def)
  have q2: "falsy (query ?r2 ''openId'') \<and> query ?r2 ''uname'' = Some (QStr ''bO'')
            \<and> truthy (QStr ''bO'')"
    by (simp add: sample_request_def falsy_def)
  have q3: "falsy (query ?r3 ''openId'') \<and> falsy (query ?r3 ''uname'')"
    by (simp add: sample_request_def falsy_def)
  have n1: "\<not> (falsy (query ?r1 ''openId'') \<and> falsy (query ?r1 ''uname''))"
    by (simp add: sample_request_def falsy_def)
  have n2: "\<not> (falsy (query ?r2 ''openId'') \<and> falsy (query ?r2 ''uname''))"
    by (simp add: sample_request_def falsy_def)
  have nw: "\<not> list_ex is_wildcard (to_js_string (QStr ''bO''))"
    by (simp add: is_wildcard_def)
  note t1 = by_user_one_branch [of ?r1 "QStr ''u1''" _ sample_env no_time sample_store]
  note t2 = by_user_one_branch [of ?r2 _ "QStr ''bO''" sample_env no_time sample_store]
  note t3 = by_user_one_branch [of ?r3 _ _ sample_env]
  have "by_user_handler (with_store no_time sample_store sample_env) ?r1
        = Response 200 (MessagesBody [hd sample_store] 100)"
    using t1 q1 n1
    by (simp add: l)
       (simp add: sample_store_def newest_first_def order_desc_def sql_eq_def col_val_simps
          effective_time_def)
  moreover have "by_user_params ?r1 = [JVal (QStr ''u1''), JNum (Num 100)]"
    using t1 q1 by (simp add: l)
  moreover have m2: "by_user_matches ?r2 = col_contains ''uname'' ''bO''"
  proof -
    from t2 q2 have "\<not> list_ex is_wildcard (to_js_string (QStr ''bO'')) \<longrightarrow>
        by_user_matches ?r2 = col_contains ''uname'' (to_js_string (QStr ''bO''))"
      by blast
    with nw have "by_user_matches ?r2 = col_contains ''uname'' (to_js_string (QStr ''bO''))"
      by blast
    then show ?thesis by simp
  qed
  moreover have "by_user_handler (with_store no_time sample_store sample_env) ?r2
        = Response 200 (MessagesBody (tl sample_store) 100)"
    using t2 n2
    by (simp add: l m2)
       (simp add: sample_store_def newest_first_def order_desc_def col_contains_def col_val_simps
          effective_time_def lower_def)
  moreover have "by_user_handler sample_env ?r3
        = Response 400 (ErrorBody ''Provide openId or uname query parameter.'')"
    using t3 q3 by simp
  ultimately show ?thesis by simp
qed

subsection \<open>The effective-time expression\<close>

lemma starts_with_set: "starts_with p s \<Longrightarrow> set p \<subseteq> set s"
  by (induction p s rule: starts_with.induct) auto

lemma starts_with_before_newline:
  "nl \<notin> set p \<Longrightarrow> starts_with p (zs @ nl # ys) = starts_with p zs"
proof (induction p arbitrary: zs)
  case Nil
  show ?case by simp
next
  case (Cons c p)
  then show ?case by (cases zs) auto
qed

lemma kw_followed_by_lines:
  assumes "nl \<notin> set kw" "nl \<notin> set e"
  shows "kw_followed_by kw e (xs @ nl # ys)
         = (kw_followed_by kw e xs \<and> kw_followed_by kw e (nl # ys))"
proof (induction xs)
  case Nil
  show ?case by simp
next
  case (Cons x xs)
  have "starts_with kw ((x # xs) @ nl # ys) = starts_with kw (x # xs)"
    using assms by (intro starts_with_before_newline) simp
  moreover have "starts_with (kw @ e) ((x # xs) @ nl # ys) = starts_with (kw @ e) (x # xs)"
    using assms by (intro starts_with_before_newline) simp
  ultimately show ?case using Cons by (auto simp del: starts_with.simps)
qed

lemma kw_followed_by_absent:
  "c \<in> set kw \<Longrightarrow> c \<notin> set s \<Longrightarrow> kw_followed_by kw e s"
proof (induction s)
  case Nil
  show ?case by simp
next
  case (Cons x s)
  then have "\<not> starts_with kw (x # s)" using starts_with_set [of kw "x # s"] by auto
  with Cons show ?case by simp
qed

lemma set_join_with: "set (join_with sep xs) \<subseteq> set sep \<union> \<Union> (set ` set xs)"
  by (induction sep xs rule: join_with.induct) auto

lemma join_with_avoids:
  "c \<notin> set sep \<Longrightarrow> list_all (\<lambda>x. c \<notin> set x) xs \<Longrightarrow> c \<notin> set (join_with sep xs)"
  using set_join_with [of sep xs] by (auto simp: list_all_iff)

lemma search_where_chars: "CHR ''B'' \<notin> set (search_where req ks)"
proof -
  have "CHR ''B'' \<notin> set (join_with '' OR '' (map (\<lambda>k. ''msg LIKE ? COLLATE NOCASE'') ks))"
    by (rule join_with_avoids) (simp_all add: list_all_iff)
  then show ?thesis by (auto simp: search_where_def Let_def)
qed

lemma search_sql_order_by:
  "kw_followed_by ''ORDER BY '' buildTimestampOrderClause (search_sql req ks)"
proof -
  define head where "head = nl # ''            SELECT *'' @ nl # ''            FROM danmaku_messages''
                 @ nl # ''            WHERE '' @ search_where req ks"
  define tail where "tail = ''            ORDER BY '' @ buildTimestampOrderClause @ '' DESC''
                 @ nl # ''            LIMIT ?'' @ nl # ''        ''"
  have s: "search_sql req ks = head @ nl # tail"
    by (simp add: search_sql_def template_def head_def tail_def)
  have h: "kw_followed_by ''ORDER BY '' buildTimestampOrderClause head"
    using search_where_chars [of req ks]
    by (intro kw_followed_by_absent [of "CHR ''B''"]) (simp_all add: head_def)
  have t: "kw_followed_by ''ORDER BY '' buildTimestampOrderClause (nl # tail)"
    by (simp add: buildTimestampOrderClause_def tail_def)
  have "kw_followed_by ''ORDER BY '' buildTimestampOrderClause (head @ nl # tail)
        = (kw_followed_by ''ORDER BY '' buildTimestampOrderClause head
           \<and> kw_followed_by ''ORDER BY '' buildTimestampOrderClause (nl # tail))"
    by (rule kw_followed_by_lines) (simp_all add: buildTimestampOrderClause_def)
  with h t show ?thesis by (simp only: s)
qed

lemma recent_sql_order_by:
  "kw_followed_by ''ORDER BY '' buildTimestampOrderClause (recent_sql req)"
  by (cases "falsy (query req ''roomId'')")
     (simp_all add: recent_sql_def recent_clauses_def template_def buildTimestampOrderClause_def)

lemma by_user_sql_order_by:
  "kw_followed_by ''ORDER BY '' buildTimestampOrderClause (by_user_sql req)"
  by (cases "falsy (query req ''openId'')")
     (simp_all add: by_user_sql_def by_user_where_def template_def buildTimestampOrderClause_def)

lemma newest_first_sorted:
  "sorted_wrt (\<lambda>a b. sort_rank (effective_time tv b) \<le> sort_rank (effective_time tv a))
     (newest_first tv rows)"
proof -
  have "sorted (map (\<lambda>r. sort_rank (effective_time tv r))
          (sort_key (\<lambda>r. sort_rank (effective_time tv r)) rows))"
    by (rule sorted_sort_key)
  then show ?thesis
    by (simp add: newest_first_def order_desc_def sorted_wrt_rev sorted_map)
qed

lemma sort_rank_int: "sort_rank (SInt t) \<le> sort_rank (SInt s) \<longleftrightarrow> t \<le> s"
  by (auto simp: less_eq_prod_def)

lemma effective_time_int: "col_val r ''timestamp'' = SInt t \<Longrightarrow> effective_time tv r = SInt t"
  by (simp add: effective_time_def)

lemma newest_first_timestamps:
  assumes "rows = take n (newest_first tv xs)" "i < j" "j < length rows"
    "col_val (rows ! i) ''timestamp'' = SInt s" "col_val (rows ! j) ''timestamp'' = SInt t"
  shows "t \<le> s"
proof -
  have "sorted_wrt (\<lambda>a b. sort_rank (effective_time tv b) \<le> sort_rank (effective_time tv a)) rows"
    unfolding assms(1) by (intro sorted_wrt_take newest_first_sorted)
  then have "sort_rank (effective_time tv (rows ! j)) \<le> sort_rank (effective_time tv (rows ! i))"
    using assms(2,3) by (simp add: sorted_wrt_iff_nth_less)
  then show ?thesis
    using assms(4,5) by (auto simp: effective_time_int sort_rank_int)
qed

lemma starts_with_self: "starts_with p (p @ ys)"
  by (induction p) simp_all

lemma occurs_middle: "occurs p (xs @ p @ ys)"
proof (induction xs)
  case Nil
  show ?case using starts_with_self [of p ys] by (cases "p @ ys") auto
next
  case (Cons x xs)
  then show ?case by simp
qed

lemma search_sql_occurs:
  "occurs (''ORDER BY '' @ buildTimestampOrderClause @ '' DESC'') (search_sql req ks)"
proof -
  have "search_sql req ks =
      (nl # ''            SELECT *'' @ nl # ''            FROM danmaku_messages''
         @ nl # ''            WHERE '' @ search_where req ks @ nl # ''            '')
      @ (''ORDER BY '' @ buildTimestampOrderClause @ '' DESC'')
      @ (nl # ''            LIMIT ?'' @ nl # ''        '')"
    by (simp add: search_sql_def template_def)
  then show ?thesis by (simp only: occurs_middle)
qed

lemma recent_sql_occurs:
  "occurs (''ORDER BY '' @ buildTimestampOrderClause @ '' DESC'') (recent_sql req)"
  by (cases "falsy (query req ''roomId'')")
     (simp_all add: recent_sql_def recent_clauses_def template_def buildTimestampOrderClause_def)

lemma by_user_sql_occurs:
  "occurs (''ORDER BY '' @ buildTimestampOrderClause @ '' DESC'') (by_user_sql req)"
  by (cases "falsy (query req ''openId'')")
     (simp_all add: by_user_sql_def by_user_where_def template_def buildTimestampOrderClause_def)

text \<open>
  Claim C8, as the statements are built and evaluated.  The top senders are ordered by
  \<^verbatim>\<open>messageCount\<close> and the table list by \<^verbatim>\<open>name\<close>, not by the effective-time
  expression.  And over a store that holds a row without timestamp created in 2001 and a
  row with timestamp 1700000000, the recent messages list the row of 2001 first, although
  its effective time in seconds is the smaller one: the expression gives a text for it,
  and a text sorts above every integer.
\<close>

theorem effective_time_order_counterexample:
  "\<not> kw_followed_by ''ORDER BY '' buildTimestampOrderClause top_users_sql
   \<and> \<not> kw_followed_by ''ORDER BY '' buildTimestampOrderClause tables_sql
   \<and> recent_handler (with_store sample_time mixed_store sample_env) (sample_request [])
       = Response 200 (MessagesBody mixed_store 50)
   \<and> map (effective_seconds sample_time) mixed_store = [Some 978307200, Some 1700000000]"
proof -
  have "\<not> kw_followed_by ''ORDER BY '' buildTimestampOrderClause top_users_sql"
    by (simp add: top_users_sql_def template_def buildTimestampOrderClause_def)
  moreover have "\<not> kw_followed_by ''ORDER BY '' buildTimestampOrderClause tables_sql"
    by (simp add: tables_sql_def buildTimestampOrderClause_def)
  moreover have "recent_handler (with_store sample_time mixed_store sample_env) (sample_request [])
       = Response 200 (MessagesBody mixed_store 50)"
    by (simp add: recent_handler_with_store)
       (simp add: sample_request_def recent_limit_def or_default_def parseInt_def
          parse_int10_defaults room_matches_def mixed_store_def newest_first_def order_desc_def
          effective_time_def col_val_simps strftime_s_def sample_time_def dec_digits.simps)
  moreover have "map (effective_seconds sample_time) mixed_store
       = [Some 978307200, Some 1700000000]"
    by (simp add: mixed_store_def effective_seconds_def col_val_simps sample_time_def)
  ultimately show ?thesis by simp
qed

text \<open>
  Claim C8, amended.  In the statements of the three message listings the keyword
  \<^verbatim>\<open>ORDER BY\<close> stands once, followed by the effective-time expression and
  \<^verbatim>\<open>DESC\<close>; in the two windowed statements the keyword \<^verbatim>\<open>WHERE\<close> is followed by
  the same expression and \<^verbatim>\<open>>= ?\<close>.  Of any two rows the recent messages return that
  both carry an integer timestamp, the earlier one in the answer has the greater or equal
  timestamp.
\<close>

theorem effective_time_expression_use:
  "kw_followed_by ''ORDER BY '' buildTimestampOrderClause (recent_sql req)
   \<and> occurs (''ORDER BY '' @ buildTimestampOrderClause @ '' DESC'') (recent_sql req)
   \<and> kw_followed_by ''ORDER BY '' buildTimestampOrderClause (by_user_sql req)
   \<and> occurs (''ORDER BY '' @ buildTimestampOrderClause @ '' DESC'') (by_user_sql req)
   \<and> kw_followed_by ''ORDER BY '' buildTimestampOrderClause (search_sql req ks)
   \<and> occurs (''ORDER BY '' @ buildTimestampOrderClause @ '' DESC'') (search_sql req ks)
   \<and> kw_followed_by ''WHERE '' (buildTimestampOrderClause @ '' >= ?'') unique_users_24h_sql
   \<and> occurs (''WHERE '' @ buildTimestampOrderClause @ '' >= ?'') unique_users_24h_sql
   \<and> kw_followed_by ''WHERE '' (buildTimestampOrderClause @ '' >= ?'') top_users_sql
   \<and> occurs (''WHERE '' @ buildTimestampOrderClause @ '' >= ?'') top_users_sql
   \<and> (\<forall>i j s t.
         i < j \<and> j < length (response_rows (recent_handler (with_store tv store e) req))
         \<and> col_val (response_rows (recent_handler (with_store tv store e) req) ! i) ''timestamp''
             = SInt s
         \<and> col_val (response_rows (recent_handler (with_store tv store e) req) ! j) ''timestamp''
             = SInt t
         \<longrightarrow> t \<le> s)"
proof -
  have w1: "kw_followed_by ''WHERE '' (buildTimestampOrderClause @ '' >= ?'') unique_users_24h_sql"
    by (simp add: unique_users_24h_sql_def buildTimestampOrderClause_def)
  have w2: "occurs (''WHERE '' @ buildTimestampOrderClause @ '' >= ?'') unique_users_24h_sql"
    by (simp add: unique_users_24h_sql_def buildTimestampOrderClause_def)
  have w3: "kw_followed_by ''WHERE '' (buildTimestampOrderClause @ '' >= ?'') top_users_sql"
    by (simp add: top_users_sql_def template_def buildTimestampOrderClause_def)
  have w4: "occurs (''WHERE '' @ buildTimestampOrderClause @ '' >= ?'') top_users_sql"
    by (simp add: top_users_sql_def template_def buildTimestampOrderClause_def)
  have r: "response_rows (recent_handler (with_store tv store e) req)
      = take (nat (recent_limit req)) (newest_first tv (filter (room_matches req) store))"
    by (simp add: recent_handler_with_store)
  have o: "t \<le> s"
    if "i < j" "j < length (response_rows (recent_handler (with_store tv store e) req))"
      "col_val (response_rows (recent_handler (with_store tv store e) req) ! i) ''timestamp'' = SInt s"
      "col_val (response_rows (recent_handler (with_store tv store e) req) ! j) ''timestamp'' = SInt t"
    for i j s t
    using newest_first_timestamps [OF r that] .
  show ?thesis
    using recent_sql_order_by recent_sql_occurs by_user_sql_order_by by_user_sql_occurs
      search_sql_order_by search_sql_occurs w1 w2 w3 w4 o
    by blast
qed

theorem effective_time_expression_use_witness:
  "response_rows (recent_handler (with_store no_time sample_store sample_env) (sample_request []))
     = sample_store
   \<and> (0::nat) < 1 \<and> 1 < length sample_store
   \<and> col_val (sample_store ! 0) ''timestamp'' = SInt 300
   \<and> col_val (sample_store ! 1) ''timestamp'' = SInt 200
   \<and> (200::int) \<le> 300
   \<and> kw_followed_by ''ORDER BY '' buildTimestampOrderClause (recent_sql (sample_request []))
   \<and> occurs (''ORDER BY '' @ buildTimestampOrderClause @ '' DESC'')
         (search_sql (sample_request []) [''a'', ''b''])"
proof -
  let ?rows = "response_rows (recent_handler (with_store no_time sample_store sample_env)
                 (sample_request []))"
  note t = effective_time_expression_use
             [of "sample_request []" "[''a'', ''b'']" no_time sample_store sample_env]
  have r: "?rows = sample_store"
    by (simp add: recent_handler_with_store)
       (simp add: sample_request_def recent_limit_def or_default_def parseInt_def
          parse_int10_defaults room_matches_def sample_store_def newest_first_def order_desc_def
          effective_time_def col_val_simps)
  have c0: "col_val (sample_store ! 0) ''timestamp'' = SInt 300"
    and c1: "col_val (sample_store ! 1) ''timestamp'' = SInt 200"
    and l: "1 < length sample_store"
    by (simp_all add: sample_store_def col_val_simps)
  from t have "0 < (1::nat) \<and> 1 < length ?rows
        \<and> col_val (?rows ! 0) ''timestamp'' = SInt 300
        \<and> col_val (?rows ! 1) ''timestamp'' = SInt 200 \<longrightarrow> (200::int) \<le> 300"
    by blast
  with r c0 c1 l have "(200::int) \<le> 300" by simp
  moreover from t have
    "kw_followed_by ''ORDER BY '' buildTimestampOrderClause (recent_sql (sample_request []))"
    "occurs (''ORDER BY '' @ buildTimestampOrderClause @ '' DESC'')
         (search_sql (sample_request []) [''a'', ''b''])"
    by blast+
  ultimately show ?thesis using r c0 c1 l by simp
qed

subsection \<open>Windowed statistics\<close>










subsection \<open>Bound values and statement text\<close>









end
